theory Spec2Isabelle
  imports Complex_Main "HOL-Library.Word"
begin

unbundle bit_operations_syntax

section \<open>The model of imd.cpp: wire protocol and session layer\<close>

text \<open>
  A shallow embedding of \<^verbatim>\<open>src/gromacs/imd/imd.cpp\<close>. The C structs are records,
  the mutated \<^verbatim>\<open>t_gmx_IMD\<close> is passed in and returned, loops are recursive
  functions. The socket primitives (\<^verbatim>\<open>imdsocket.cpp\<close>), the allocation
  macros, the broadcast primitives and the unit constants are not part of the excerpt;
  they appear here as an explicit environment (the peer's behaviour stored in the socket
  value) or as parameters collected in the record \<open>host\<close>.
\<close>

subsection \<open>Bytes and 32-bit integers\<close>

type_synonym byte = "8 word"
type_synonym int32_t = "32 word"

text \<open>The four bytes of a 32-bit value, most significant first, and back.\<close>

definition be_bytes :: "int32_t \<Rightarrow> byte list" where
  "be_bytes w = [ucast (drop_bit 24 w), ucast (drop_bit 16 w), ucast (drop_bit 8 w), ucast w]"

definition be_word :: "byte list \<Rightarrow> int32_t" where
  "be_word bs = foldl (\<lambda>acc b. push_bit 8 acc OR ucast b) 0 bs"

text \<open>
  Parameters of the machine the code runs on: its byte order (which decides how an
  \<^verbatim>\<open>int32_t\<close> lies in memory, hence what \<^verbatim>\<open>reinterpret_cast<char *>\<close> sees),
  and the value \<^verbatim>\<open>vmd_forces[k] * conversion\<close> of a received 4-byte float, where
  \<^verbatim>\<open>conversion = CAL2JOULE * NM2A\<close> comes from \<^verbatim>\<open>units.h\<close> (not under src/);
  that product is kept abstract. \<^verbatim>\<open>TRICLINIC(box)\<close> is a macro of the
  periodic-boundary headers (not under src/) and is a parameter as well. Vectors
  (\<^verbatim>\<open>rvec\<close>, \<^verbatim>\<open>ivec\<close>) are triples of their XX, YY and ZZ components, a
  \<^verbatim>\<open>matrix\<close> is the triple of its rows. A value of the C type \<^verbatim>\<open>real\<close> (float or
  double) is the real number it holds; the floating-point operations that
  \<^verbatim>\<open>shift_positions\<close> performs, each with the rounding of the host, are parameters:
  \<open>f_of_int\<close> converts an \<^verbatim>\<open>int\<close> to \<^verbatim>\<open>real\<close>, \<open>f_mul\<close> is the product and
  \<open>f_sub\<close> the difference of two \<^verbatim>\<open>real\<close> values.
\<close>

type_synonym rvec = "real \<times> real \<times> real"
type_synonym ivec = "int \<times> int \<times> int"
type_synonym matrix = "rvec \<times> rvec \<times> rvec"

record host =
  little_endian :: bool
  md_force :: "byte list \<Rightarrow> real"
  TRICLINIC :: "matrix \<Rightarrow> bool"
  f_of_int :: "int \<Rightarrow> real"
  f_mul :: "real \<Rightarrow> real \<Rightarrow> real"
  f_sub :: "real \<Rightarrow> real \<Rightarrow> real"

definition host_bytes :: "'a host_scheme \<Rightarrow> int32_t \<Rightarrow> byte list" where
  "host_bytes h w = (if little_endian h then rev (be_bytes w) else be_bytes w)"

definition host_word :: "'a host_scheme \<Rightarrow> byte list \<Rightarrow> int32_t" where
  "host_word h bs = be_word (if little_endian h then rev bs else bs)"

text \<open>
  Modelled from the spec: \<^verbatim>\<open>imd_htonl\<close> and \<^verbatim>\<open>imd_ntohl\<close> live in
  \<^verbatim>\<open>imdsocket.cpp\<close>, which is missing from src/. The spec calls them a reversible
  byte-order transform that puts header integers into network byte order:
  \<open>imd_htonl h w\<close> is the integer whose bytes in the memory of host \<open>h\<close> are the
  big-endian bytes of \<open>w\<close>, and \<open>imd_ntohl\<close> reads such an integer back.
\<close>

definition imd_htonl :: "'a host_scheme \<Rightarrow> int32_t \<Rightarrow> int32_t" where
  "imd_htonl h w = host_word h (be_bytes w)"

definition imd_ntohl :: "'a host_scheme \<Rightarrow> int32_t \<Rightarrow> int32_t" where
  "imd_ntohl h w = be_word (host_bytes h w)"

subsection \<open>Message kinds and the header\<close>

datatype IMDMessageType =
    IMD_DISCONNECT
  | IMD_ENERGIES
  | IMD_FCOORDS
  | IMD_GO
  | IMD_HANDSHAKE
  | IMD_KILL
  | IMD_MDCOMM
  | IMD_PAUSE
  | IMD_TRATE
  | IMD_IOERROR
  | IMD_NR

text \<open>\<^verbatim>\<open>static_cast<int32_t>(type)\<close>: the enumerators count from 0 in declaration order.\<close>

fun IMDType_code :: "IMDMessageType \<Rightarrow> int32_t" where
  "IMDType_code IMD_DISCONNECT = 0"
| "IMDType_code IMD_ENERGIES = 1"
| "IMDType_code IMD_FCOORDS = 2"
| "IMDType_code IMD_GO = 3"
| "IMDType_code IMD_HANDSHAKE = 4"
| "IMDType_code IMD_KILL = 5"
| "IMDType_code IMD_MDCOMM = 6"
| "IMDType_code IMD_PAUSE = 7"
| "IMDType_code IMD_TRATE = 8"
| "IMDType_code IMD_IOERROR = 9"
| "IMDType_code IMD_NR = 10"

definition c_loopWait :: nat where "c_loopWait = 1"
definition c_connectWait :: nat where "c_connectWait = 1"
definition c_headerSize :: nat where "c_headerSize = 8"
definition c_protocolVersion :: int32_t where "c_protocolVersion = 2"

record IMDHeader =
  type_h :: int32_t
  length_h :: int32_t

definition fill_header :: "'a host_scheme \<Rightarrow> IMDMessageType \<Rightarrow> int32_t \<Rightarrow> IMDHeader" where
  "fill_header h type len =
     \<lparr>type_h = imd_htonl h (IMDType_code type), length_h = imd_htonl h len\<rparr>"

definition swap_header :: "'a host_scheme \<Rightarrow> IMDHeader \<Rightarrow> IMDHeader" where
  "swap_header h header =
     header\<lparr>type_h := imd_ntohl h (type_h header), length_h := imd_ntohl h (length_h header)\<rparr>"

text \<open>
  \<^verbatim>\<open>reinterpret_cast<char *>(&header)\<close>: the eight bytes of the struct as they lie
  in the memory of host \<open>h\<close>, and the struct that eight received bytes form there.
\<close>

definition header_bytes :: "'a host_scheme \<Rightarrow> IMDHeader \<Rightarrow> byte list" where
  "header_bytes h header = host_bytes h (type_h header) @ host_bytes h (length_h header)"

definition header_of_bytes :: "'a host_scheme \<Rightarrow> byte list \<Rightarrow> IMDHeader" where
  "header_of_bytes h bs =
     \<lparr>type_h = host_word h (take 4 bs), length_h = host_word h (take 4 (drop 4 bs))\<rparr>"

subsection \<open>The socket as the code sees it\<close>

text \<open>
  The peer is the environment. A connected socket holds the bytes that have arrived and
  were not read yet (\<open>avail\<close>), what the peer will do next (\<open>future\<close>), the bytes
  written to it so far (\<open>sent\<close>) and the outcomes of the coming write calls
  (\<open>wscript\<close>). \<open>Arrive d bs\<close>: after \<open>d\<close> more seconds the bytes \<open>bs\<close> arrive.
  \<open>Hangup\<close>: the peer has closed, a read returns 0. \<open>Fault e\<close>: the next read fails,
  with \<^verbatim>\<open>errno == EINTR\<close> iff \<open>e\<close>. When \<open>future\<close> is empty the peer stays connected
  and silent: a poll times out and a read never returns.
\<close>

datatype peer_event = Arrive nat "byte list" | Hangup | Fault bool

datatype write_result = Wrote nat | WFault bool

record IMDSocket =
  avail :: "byte list"
  future :: "peer_event list"
  sent :: "byte list"
  wscript :: "write_result list"

datatype read_result = RBytes "byte list" | RFail bool

text \<open>
  \<^verbatim>\<open>imdsock_read(sock, buf, n)\<close> on a blocking socket: up to \<open>n\<close> of the available
  bytes; with none available it waits for the peer. \<open>None\<close>: the call never returns.
\<close>

fun sock_read :: "byte list \<Rightarrow> peer_event list \<Rightarrow> nat \<Rightarrow> (read_result \<times> byte list \<times> peer_event list) option" where
  "sock_read (b # bs) fut n = Some (RBytes (take n (b # bs)), drop n (b # bs), fut)"
| "sock_read [] [] n = None"
| "sock_read [] (Arrive d bs # fs) n = sock_read bs fs n"
| "sock_read [] (Hangup # fs) n = Some (RBytes [], [], Hangup # fs)"
| "sock_read [] (Fault e # fs) n = Some (RFail e, [], fs)"

definition imdsock_read :: "IMDSocket \<Rightarrow> nat \<Rightarrow> (read_result \<times> IMDSocket) option" where
  "imdsock_read sock n =
     (case sock_read (avail sock) (future sock) n of
        None \<Rightarrow> None
      | Some (r, av, fut) \<Rightarrow> Some (r, sock\<lparr>avail := av, future := fut\<rparr>))"

text \<open>
  \<^verbatim>\<open>imdsock_tryread(sock, timeoutsec, 0)\<close>: 1 when the socket is readable within the
  timeout (data, or the end of the stream), else 0; waiting uses up the peer's delay.
\<close>

fun sock_poll :: "byte list \<Rightarrow> peer_event list \<Rightarrow> nat \<Rightarrow> int \<times> byte list \<times> peer_event list" where
  "sock_poll (b # bs) fut t = (1, b # bs, fut)"
| "sock_poll [] [] t = (0, [], [])"
| "sock_poll [] (Arrive d bs # fs) t =
     (if d \<le> t then sock_poll bs fs (t - d) else (0, [], Arrive (d - t) bs # fs))"
| "sock_poll [] (Hangup # fs) t = (1, [], Hangup # fs)"
| "sock_poll [] (Fault e # fs) t = (1, [], Fault e # fs)"

definition imdsock_tryread :: "IMDSocket \<Rightarrow> nat \<Rightarrow> int \<times> IMDSocket" where
  "imdsock_tryread sock timeoutsec =
     (case sock_poll (avail sock) (future sock) timeoutsec of
        (r, av, fut) \<Rightarrow> (r, sock\<lparr>avail := av, future := fut\<rparr>))"

text \<open>What is still to come from the peer; every read that returns data makes it smaller.\<close>

fun event_size :: "peer_event \<Rightarrow> nat" where
  "event_size (Arrive d bs) = Suc (length bs)"
| "event_size Hangup = 1"
| "event_size (Fault e) = 1"

definition sock_size :: "IMDSocket \<Rightarrow> nat" where
  "sock_size sock = length (avail sock) + sum_list (map event_size (future sock))"

subsection \<open>Reading and writing whole buffers\<close>

text \<open>
  \<^verbatim>\<open>imd_read_multiple\<close>: the loop reads until \<open>toread\<close> bytes have come, a read
  returns 0, or a read fails with something else than EINTR. The result is the bytes
  stored through \<^verbatim>\<open>datptr\<close> (their number is the C return value) and the socket.
\<close>

function imd_read_multiple :: "IMDSocket \<Rightarrow> nat \<Rightarrow> (byte list \<times> IMDSocket) option" where
  "imd_read_multiple sock leftcount =
     (if leftcount = 0 then Some ([], sock)
      else case imdsock_read sock leftcount of
        None \<Rightarrow> None
      | Some (RFail eintr, sock') \<Rightarrow>
          if eintr then imd_read_multiple sock' leftcount else Some ([], sock')
      | Some (RBytes bs, sock') \<Rightarrow>
          if bs = [] then Some ([], sock')
          else (case imd_read_multiple sock' (leftcount - length bs) of
                  None \<Rightarrow> None
                | Some (rest, sock'') \<Rightarrow> Some (bs @ rest, sock'')))"
  by pat_completeness auto

text \<open>
  \<^verbatim>\<open>imdsock_write\<close>: the next entry of \<open>wscript\<close> decides. \<open>Wrote k\<close>: the call
  takes \<open>k + 1\<close> of the offered bytes (at most all of them); \<open>WFault e\<close>: it returns a
  value \<open>\<le> 0\<close> and \<^verbatim>\<open>errno == EINTR\<close> holds iff \<open>e\<close>. With the script used up, a
  write takes everything.
\<close>

definition imdsock_write :: "IMDSocket \<Rightarrow> byte list \<Rightarrow> write_result \<times> IMDSocket" where
  "imdsock_write sock dat =
     (case wscript sock of
        [] \<Rightarrow> (Wrote (length dat - 1), sock\<lparr>sent := sent sock @ dat\<rparr>)
      | Wrote k # ws \<Rightarrow>
          (Wrote (min k (length dat - 1)),
           sock\<lparr>sent := sent sock @ take (Suc k) dat, wscript := ws\<rparr>)
      | WFault e # ws \<Rightarrow> (WFault e, sock\<lparr>wscript := ws\<rparr>))"

function imd_write_multiple :: "IMDSocket \<Rightarrow> byte list \<Rightarrow> nat \<times> IMDSocket" where
  "imd_write_multiple sock dat =
     (if dat = [] then (0, sock)
      else case imdsock_write sock dat of
        (WFault eintr, sock') \<Rightarrow>
          if eintr then imd_write_multiple sock' dat else (0, sock')
      | (Wrote k, sock') \<Rightarrow>
          (case imd_write_multiple sock' (drop (Suc k) dat) of
             (n, sock'') \<Rightarrow> (Suc k + n, sock'')))"
  by pat_completeness auto
termination
  by (relation "measure (\<lambda>(sock, dat). length dat + length (wscript sock))")
     (auto simp: imdsock_write_def split: list.splits write_result.splits)

text \<open>\<^verbatim>\<open>imd_handshake\<close> returns nonzero (here \<open>True\<close>) when the header was not written whole.\<close>

definition imd_handshake :: "'a host_scheme \<Rightarrow> IMDSocket \<Rightarrow> bool \<times> IMDSocket" where
  "imd_handshake h sock =
     (let header = fill_header h IMD_HANDSHAKE 1;
          header = header\<lparr>length_h := c_protocolVersion\<rparr>
      in case imd_write_multiple sock (header_bytes h header) of
           (n, sock') \<Rightarrow> (n \<noteq> c_headerSize, sock'))"

text \<open>
  \<^verbatim>\<open>imd_recv_header\<close>: \<^verbatim>\<open>*length\<close> is written only when the whole header came;
  \<open>len0\<close> is the value it had. The returned kind is the received integer itself
  (\<^verbatim>\<open>static_cast<IMDMessageType>(header.type)\<close>).
\<close>

definition imd_recv_header :: "'a host_scheme \<Rightarrow> IMDSocket \<Rightarrow> int \<Rightarrow> (int32_t \<times> int \<times> IMDSocket) option" where
  "imd_recv_header h sock len0 =
     (case imd_read_multiple sock c_headerSize of
        None \<Rightarrow> None
      | Some (bs, sock') \<Rightarrow>
          if length bs \<noteq> c_headerSize then Some (IMDType_code IMD_IOERROR, len0, sock')
          else let header = swap_header h (header_of_bytes h bs)
               in Some (type_h header, sint (length_h header), sock'))"

text \<open>
  \<^verbatim>\<open>imd_recv_mdcomm\<close> reads \<open>nforces\<close> 4-byte indices into \<^verbatim>\<open>forcendx\<close> and then
  \<open>3 * nforces\<close> 4-byte floats into \<^verbatim>\<open>forces\<close>. Both arrays are kept as the bytes
  in memory; what a read delivers overwrites the front of the array it reads into, also
  when the read comes up short. The result is \<^verbatim>\<open>TRUE\<close>/\<^verbatim>\<open>FALSE\<close>, the two arrays
  and the socket.
\<close>

definition store_bytes :: "byte list \<Rightarrow> byte list \<Rightarrow> byte list" where
  "store_bytes buf bs = bs @ drop (length bs) buf"

definition imd_recv_mdcomm ::
  "IMDSocket \<Rightarrow> nat \<Rightarrow> byte list \<Rightarrow> byte list \<Rightarrow> (bool \<times> byte list \<times> byte list \<times> IMDSocket) option" where
  "imd_recv_mdcomm sock nforces forcendx forces =
     (let retsize = 4 * nforces in
      case imd_read_multiple sock retsize of
        None \<Rightarrow> None
      | Some (bs, sock1) \<Rightarrow>
          let forcendx1 = store_bytes forcendx bs in
          if length bs \<noteq> retsize then Some (False, forcendx1, forces, sock1)
          else
            let retsize = 3 * 4 * nforces in
            case imd_read_multiple sock1 retsize of
              None \<Rightarrow> None
            | Some (bs', sock2) \<Rightarrow>
                let forces1 = store_bytes forces bs' in
                if length bs' \<noteq> retsize then Some (False, forcendx1, forces1, sock2)
                else Some (True, forcendx1, forces1, sock2))"

subsection \<open>The session state\<close>

text \<open>
  The log file of the pulling forces: what \<^verbatim>\<open>fprintf\<close> has put into the stdio
  buffer and what has reached the file. One \<open>ForceLine\<close> is one line written by
  \<^verbatim>\<open>output_imd_forces\<close>: the time, the number of forces, and for every changed
  force the 1-based global atom number and the force.
\<close>

datatype force_line = ForceLine real int "(int \<times> rvec) list"

record imd_file =
  written :: "force_line list"
  buffered :: "force_line list"

definition fflush :: "imd_file \<Rightarrow> imd_file" where
  "fflush fp = \<lparr>written = written fp @ buffered fp, buffered = []\<rparr>"

text \<open>The listening socket: the connection attempts waiting on it; \<open>None\<close> is an attempt
  on which \<^verbatim>\<open>imdsock_accept\<close> fails.\<close>

record listen_socket =
  backlog :: "IMDSocket option list"

datatype gmx_stop_cond_t = gmx_stop_cond_none | gmx_stop_cond_next

record t_block =
  nr :: nat
  index :: "nat list"

text \<open>
  The fields of \<^verbatim>\<open>t_gmx_IMD_setup\<close> that the functions below touch. Renamed:
  \<^verbatim>\<open>nat\<close> is \<open>nat_imd\<close>, \<^verbatim>\<open>length\<close> is \<open>length_hdr\<close>, \<^verbatim>\<open>f\<close> is \<open>f_md\<close>.
  \<open>stop_condition\<close> is the process-wide value behind \<^verbatim>\<open>gmx_set_stop_condition\<close>.
  \<^verbatim>\<open>int\<close> fields are mathematical integers; \<^verbatim>\<open>vmd_f_ind\<close> and \<^verbatim>\<open>vmd_forces\<close>
  are the bytes of the two receive arrays.
\<close>

record t_gmx_IMD =
  sessionPossible :: bool
  outf :: "imd_file option"
  nat_imd :: int
  ind :: "int list"
  xa :: "rvec list"
  xa_shifts :: "ivec list"
  nstimd :: int
  nstimd_new :: int
  nstimd_def :: int
  port :: int
  socket :: listen_socket
  clientsocket :: "IMDSocket option"
  length_hdr :: int
  bWConnect :: bool
  bTerminated :: bool
  bTerminatable :: bool
  bConnected :: bool
  bNewForces :: bool
  bForceActivated :: bool
  vmd_nforces :: int
  vmd_f_ind :: "byte list"
  vmd_forces :: "byte list"
  nforces :: int
  f_ind :: "int list"
  f_md :: "rvec list"
  mols :: t_block
  old_nforces :: int
  old_f_ind :: "int list"
  old_forces :: "rvec list"
  stop_condition :: gmx_stop_cond_t

definition prepareSession :: "int \<Rightarrow> int \<Rightarrow> int \<Rightarrow> t_gmx_IMD \<Rightarrow> t_gmx_IMD" where
  "prepareSession imdatoms nstimddef imdport IMDsetup =
     IMDsetup\<lparr>sessionPossible := True,
               nat_imd := imdatoms,
               bTerminated := False,
               bTerminatable := False,
               bWConnect := False,
               bConnected := False,
               bForceActivated := False,
               bNewForces := False,
               nstimd := 1,
               nstimd_new := 1,
               nstimd_def := nstimddef,
               port := (if imdport < 1 then 0 else imdport)\<rparr>"

subsection \<open>Connecting and disconnecting\<close>

text \<open>
  \<^verbatim>\<open>imd_disconnect\<close>: \<^verbatim>\<open>fflush\<close> on the log (with no log open there is nothing of
  this session to flush), the client socket is shut down and destroyed, then the three
  assignments. The warnings written to \<^verbatim>\<open>mdlog\<close> are not part of the state.
\<close>

definition imd_disconnect :: "t_gmx_IMD \<Rightarrow> t_gmx_IMD" where
  "imd_disconnect IMDsetup =
     IMDsetup\<lparr>outf := map_option fflush (outf IMDsetup),
               nstimd_new := nstimd_def IMDsetup,
               clientsocket := None,
               bConnected := False\<rparr>"

definition imd_fatal :: "t_gmx_IMD \<Rightarrow> t_gmx_IMD" where
  "imd_fatal IMDsetup = imd_disconnect IMDsetup"

text \<open>
  \<^verbatim>\<open>imd_tryconnect\<close>. \<open>None\<close>: the call never returns (the read of the first header
  blocks). After the test for \<^verbatim>\<open>IMD_GO\<close> the source has no \<^verbatim>\<open>return\<close>: both
  outcomes of the test run on into \<^verbatim>\<open>bConnected = TRUE; return TRUE\<close>.
\<close>

definition imd_tryconnect :: "'a host_scheme \<Rightarrow> t_gmx_IMD \<Rightarrow> (bool \<times> t_gmx_IMD) option" where
  "imd_tryconnect h IMDsetup =
     (case backlog (socket IMDsetup) of
        [] \<Rightarrow> Some (False, IMDsetup)
      | c # cs \<Rightarrow>
          let s1 = IMDsetup\<lparr>socket := (socket IMDsetup)\<lparr>backlog := cs\<rparr>, clientsocket := c\<rparr> in
          (case clientsocket s1 of
             None \<Rightarrow> Some (False, s1)
           | Some sock \<Rightarrow>
               (case imd_handshake h sock of
                  (failed, sock1) \<Rightarrow>
                    let s2 = s1\<lparr>clientsocket := Some sock1\<rparr> in
                    if failed then Some (False, imd_fatal s2)
                    else
                      (case imdsock_tryread sock1 c_connectWait of
                         (r, sock2) \<Rightarrow>
                           let s3 = s2\<lparr>clientsocket := Some sock2\<rparr> in
                           if r \<noteq> 1 then Some (True, (imd_fatal s3)\<lparr>bConnected := True\<rparr>)
                           else
                             (case imd_recv_header h sock2 (length_hdr s3) of
                                None \<Rightarrow> None
                              | Some (itype, len, sock3) \<Rightarrow>
                                  let s4 = s3\<lparr>clientsocket := Some sock3, length_hdr := len\<rparr>;
                                      s5 = (if itype \<noteq> IMDType_code IMD_GO then imd_fatal s4 else s4)
                                  in Some (True, s5\<lparr>bConnected := True\<rparr>))))))"

subsection \<open>Receiving forces\<close>

text \<open>
  \<^verbatim>\<open>srenew\<close> (\<^verbatim>\<open>smalloc.h\<close>, not under src/) is \<^verbatim>\<open>realloc\<close>: the content up to the
  new size stays. What a grown part holds is indeterminate in C; here it is \<open>fill\<close>.
\<close>

definition srenew :: "'a list \<Rightarrow> nat \<Rightarrow> 'a \<Rightarrow> 'a list" where
  "srenew xs n fill = take n xs @ replicate (n - length xs) fill"

definition imd_prepare_vmd_Forces :: "t_gmx_IMD \<Rightarrow> t_gmx_IMD" where
  "imd_prepare_vmd_Forces IMDsetup =
     IMDsetup\<lparr>vmd_f_ind := srenew (vmd_f_ind IMDsetup) (4 * nat (vmd_nforces IMDsetup)) 0,
               vmd_forces := srenew (vmd_forces IMDsetup) (4 * (3 * nat (vmd_nforces IMDsetup))) 0\<rparr>"

text \<open>
  How a call can fail to come back with a state. \<open>Blocked\<close>: a read blocks for ever.
  \<open>OutOfModel\<close>: the C code leaves the range in which this model follows it: the count
  declared by a force message is negative (the allocation then aborts the run) or is
  \<open>2^31 / 12\<close> or more (the \<^verbatim>\<open>int\<close> byte counts of \<^verbatim>\<open>imd_recv_mdcomm\<close> then
  overflow), or a null client socket is dereferenced.
\<close>

datatype halt = Blocked | OutOfModel

definition count_ok :: "int \<Rightarrow> bool" where
  "count_ok n = (0 \<le> n \<and> 12 * n < 2 ^ 31)"

definition imd_read_vmd_Forces :: "t_gmx_IMD \<Rightarrow> halt + t_gmx_IMD" where
  "imd_read_vmd_Forces IMDsetup =
     (let s1 = IMDsetup\<lparr>vmd_nforces := length_hdr IMDsetup\<rparr> in
      if \<not> count_ok (vmd_nforces s1) then Inl OutOfModel
      else
        let s2 = imd_prepare_vmd_Forces s1 in
        case clientsocket s2 of
          None \<Rightarrow> Inl OutOfModel
        | Some sock \<Rightarrow>
            (case imd_recv_mdcomm sock (nat (vmd_nforces s2)) (vmd_f_ind s2) (vmd_forces s2) of
               None \<Rightarrow> Inl Blocked
             | Some (ok, forcendx, forces, sock') \<Rightarrow>
                 let s3 = s2\<lparr>vmd_f_ind := forcendx, vmd_forces := forces, clientsocket := Some sock'\<rparr>
                 in if \<not> ok then Inr (imd_fatal s3) else Inr s3))"

subsection \<open>The command dispatcher\<close>

text \<open>The \<^verbatim>\<open>switch (itype)\<close> of \<^verbatim>\<open>imd_readcommand\<close>, with the local \<^verbatim>\<open>IMDpaused\<close>.\<close>

definition imd_readcommand_switch :: "int32_t \<Rightarrow> bool \<Rightarrow> t_gmx_IMD \<Rightarrow> halt + bool \<times> t_gmx_IMD" where
  "imd_readcommand_switch itype IMDpaused IMDsetup =
     (if itype = IMDType_code IMD_KILL then
        (if bTerminatable IMDsetup
         then Inr (IMDpaused, IMDsetup\<lparr>bTerminated := True, bWConnect := False,
                                         stop_condition := gmx_stop_cond_next\<rparr>)
         else Inr (IMDpaused, IMDsetup))
      else if itype = IMDType_code IMD_DISCONNECT then
        Inr (IMDpaused, imd_disconnect IMDsetup)
      else if itype = IMDType_code IMD_MDCOMM then
        (case imd_read_vmd_Forces IMDsetup of
           Inl e \<Rightarrow> Inl e
         | Inr s \<Rightarrow> Inr (IMDpaused, s\<lparr>bNewForces := True\<rparr>))
      else if itype = IMDType_code IMD_PAUSE then
        (if IMDpaused then Inr (False, IMDsetup) else Inr (True, IMDsetup))
      else if itype = IMDType_code IMD_TRATE then
        Inr (IMDpaused,
             IMDsetup\<lparr>nstimd_new := (if length_hdr IMDsetup > 0 then length_hdr IMDsetup
                                      else nstimd_def IMDsetup)\<rparr>)
      else Inr (IMDpaused, imd_fatal IMDsetup))"

text \<open>One turn of the loop body: receive a header from the client socket, then the switch.\<close>

definition imd_readcommand_body :: "'a host_scheme \<Rightarrow> bool \<Rightarrow> t_gmx_IMD \<Rightarrow> halt + bool \<times> t_gmx_IMD" where
  "imd_readcommand_body h IMDpaused IMDsetup =
     (case clientsocket IMDsetup of
        None \<Rightarrow> Inl OutOfModel
      | Some sock \<Rightarrow>
          (case imd_recv_header h sock (length_hdr IMDsetup) of
             None \<Rightarrow> Inl Blocked
           | Some (itype, len, sock') \<Rightarrow>
               imd_readcommand_switch itype IMDpaused
                 (IMDsetup\<lparr>clientsocket := Some sock', length_hdr := len\<rparr>)))"

definition loop_measure :: "t_gmx_IMD \<Rightarrow> nat" where
  "loop_measure IMDsetup = (case clientsocket IMDsetup of None \<Rightarrow> 0 | Some sock \<Rightarrow> Suc (sock_size sock))"

text \<open>
  \<^verbatim>\<open>imd_readcommand\<close>: the \<^verbatim>\<open>while\<close> loop. Its condition polls the client socket
  without waiting, and lets the body run also when the poll found nothing but
  \<^verbatim>\<open>IMDpaused\<close> is set.
\<close>

function imd_readcommand_loop :: "'a host_scheme \<Rightarrow> bool \<Rightarrow> t_gmx_IMD \<Rightarrow> halt + t_gmx_IMD" where
  "imd_readcommand_loop h IMDpaused IMDsetup =
     (case clientsocket IMDsetup of
        None \<Rightarrow> Inr IMDsetup
      | Some sock \<Rightarrow>
          (case imdsock_tryread sock 0 of
             (r, sock1) \<Rightarrow>
               if r > 0 \<or> IMDpaused then
                 (case imd_readcommand_body h IMDpaused (IMDsetup\<lparr>clientsocket := Some sock1\<rparr>) of
                    Inl e \<Rightarrow> Inl e
                  | Inr (paused', s') \<Rightarrow> imd_readcommand_loop h paused' s')
               else Inr (IMDsetup\<lparr>clientsocket := Some sock1\<rparr>)))"
  by pat_completeness auto
definition imd_readcommand :: "'a host_scheme \<Rightarrow> t_gmx_IMD \<Rightarrow> halt + t_gmx_IMD" where
  "imd_readcommand h IMDsetup = imd_readcommand_loop h False IMDsetup"

subsection \<open>The group synchronizer\<close>

text \<open>
  \<^verbatim>\<open>PAR(cr)\<close> and \<^verbatim>\<open>MASTER(cr)\<close> are macros of \<^verbatim>\<open>commrec.h\<close> (not under
  src/): the run has more than one process; this process is the coordinator.
\<close>

record t_commrec =
  nnodes :: nat
  nodeid :: nat

definition PAR :: "t_commrec \<Rightarrow> bool" where
  "PAR cr = (nnodes cr > 1)"

definition MASTER :: "t_commrec \<Rightarrow> bool" where
  "MASTER cr = (nodeid cr = 0)"

text \<open>
  \<^verbatim>\<open>block_bc(cr, x)\<close> and \<^verbatim>\<open>nblock_bc(cr, n, x)\<close> broadcast from the coordinator: the
  coordinator keeps its \<open>x\<close>, every other process gets the coordinator's. The values the
  coordinator sends in one run of \<^verbatim>\<open>imd_sync_nodes\<close> are collected in \<open>imd_bcast\<close>.
\<close>

record imd_bcast =
  bc_bConnected :: bool
  bc_nstimd_new :: int
  bc_new_nforces :: int
  bc_f_ind :: "int list"
  bc_f :: "rvec list"

definition block_bc :: "t_commrec \<Rightarrow> 'a \<Rightarrow> 'a \<Rightarrow> 'a" where
  "block_bc cr root_value x = (if MASTER cr then x else root_value)"

definition imd_prepare_MD_Forces :: "t_gmx_IMD \<Rightarrow> t_gmx_IMD" where
  "imd_prepare_MD_Forces IMDsetup =
     IMDsetup\<lparr>f_ind := srenew (f_ind IMDsetup) (nat (nforces IMDsetup)) 0,
               f_md := srenew (f_md IMDsetup) (nat (nforces IMDsetup)) (0, 0, 0)\<rparr>"

text \<open>The \<open>i\<close>-th \<^verbatim>\<open>int32_t\<close> of a byte array, and the three converted floats from \<open>3 * i\<close> on.\<close>

definition int32_at :: "'a host_scheme \<Rightarrow> byte list \<Rightarrow> nat \<Rightarrow> int" where
  "int32_at h buf i = sint (host_word h (take 4 (drop (4 * i) buf)))"

definition force_at :: "'a host_scheme \<Rightarrow> byte list \<Rightarrow> nat \<Rightarrow> rvec" where
  "force_at h buf i =
     (md_force h (take 4 (drop (4 * (3 * i)) buf)),
      md_force h (take 4 (drop (4 * (3 * i + 1)) buf)),
      md_force h (take 4 (drop (4 * (3 * i + 2)) buf)))"

definition imd_copyto_MD_Forces :: "'a host_scheme \<Rightarrow> t_gmx_IMD \<Rightarrow> t_gmx_IMD" where
  "imd_copyto_MD_Forces h IMDsetup =
     fold (\<lambda>i s. s\<lparr>f_ind := (f_ind s)[i := int32_at h (vmd_f_ind s) i],
                    f_md := (f_md s)[i := force_at h (vmd_forces s) i]\<rparr>)
          [0..<nat (nforces IMDsetup)] IMDsetup"

definition bForcesChanged :: "t_gmx_IMD \<Rightarrow> bool" where
  "bForcesChanged IMDsetup =
     (if nforces IMDsetup \<noteq> old_nforces IMDsetup then True
      else if list_ex (\<lambda>i. f_ind IMDsetup ! i \<noteq> old_f_ind IMDsetup ! i) [0..<nat (nforces IMDsetup)]
      then True
      else list_ex (\<lambda>i. f_md IMDsetup ! i \<noteq> old_forces IMDsetup ! i) [0..<nat (nforces IMDsetup)])"

definition keep_old_values :: "t_gmx_IMD \<Rightarrow> t_gmx_IMD" where
  "keep_old_values IMDsetup =
     fold (\<lambda>i s. s\<lparr>old_f_ind := (old_f_ind s)[i := f_ind s ! i],
                    old_forces := (old_forces s)[i := f_md s ! i]\<rparr>)
          [0..<nat (nforces IMDsetup)] (IMDsetup\<lparr>old_nforces := nforces IMDsetup\<rparr>)"

definition rvecs_differ :: "rvec \<Rightarrow> rvec \<Rightarrow> bool" where
  "rvecs_differ v1 v2 =
     (case (v1, v2) of ((x1, y1, z1), (x2, y2, z2)) \<Rightarrow> x1 \<noteq> x2 \<or> y1 \<noteq> y2 \<or> z1 \<noteq> z2)"

text \<open>\<^verbatim>\<open>output_imd_forces\<close>, called with a log file open (\<open>fp\<close>).\<close>

definition output_imd_forces :: "t_gmx_IMD \<Rightarrow> imd_file \<Rightarrow> real \<Rightarrow> t_gmx_IMD" where
  "output_imd_forces IMDsetup fp time =
     (if bForcesChanged IMDsetup then
        let line = ForceLine time (nforces IMDsetup)
              (map (\<lambda>i. (ind IMDsetup ! nat (f_ind IMDsetup ! i) + 1, f_md IMDsetup ! i))
                 (filter (\<lambda>i. rvecs_differ (f_md IMDsetup ! i) (old_forces IMDsetup ! i))
                    [0..<nat (nforces IMDsetup)]))
        in keep_old_values (IMDsetup\<lparr>outf := Some (fp\<lparr>buffered := buffered fp @ [line]\<rparr>)\<rparr>)
      else IMDsetup)"

text \<open>
  The local \<^verbatim>\<open>new_nforces\<close> of \<^verbatim>\<open>imd_sync_nodes\<close> before it is broadcast: 0 at its
  declaration, set on the coordinator only.
\<close>

definition new_nforces_local :: "t_commrec \<Rightarrow> t_gmx_IMD \<Rightarrow> int" where
  "new_nforces_local cr IMDsetup =
     (if MASTER cr then
        (if bNewForces IMDsetup then vmd_nforces IMDsetup
         else vmd_nforces IMDsetup * - 1)
      else 0)"

text \<open>
  \<^verbatim>\<open>imd_sync_nodes\<close> as one process runs it; \<open>bc\<close> is what the coordinator sends.
\<close>

definition imd_sync_nodes ::
  "'a host_scheme \<Rightarrow> t_commrec \<Rightarrow> real \<Rightarrow> imd_bcast \<Rightarrow> t_gmx_IMD \<Rightarrow> t_gmx_IMD" where
  "imd_sync_nodes h cr t bc IMDsetup =
     (let s1 = (if PAR cr
                then IMDsetup\<lparr>bConnected := block_bc cr (bc_bConnected bc) (bConnected IMDsetup)\<rparr>
                else IMDsetup) in
      if \<not> bConnected s1 then s1
      else
        let s2 = (if PAR cr
                  then s1\<lparr>nstimd_new := block_bc cr (bc_nstimd_new bc) (nstimd_new s1)\<rparr>
                  else s1);
            s3 = s2\<lparr>nstimd := nstimd_new s2\<rparr> in
        if \<not> bForceActivated s3 then s3
        else
          let new_nforces = new_nforces_local cr s3;
              new_nforces = (if PAR cr then block_bc cr (bc_new_nforces bc) new_nforces
                             else new_nforces) in
          if new_nforces \<ge> 0 then
            let s4 = s3\<lparr>vmd_nforces := new_nforces\<rparr>;
                s5 = s4\<lparr>nforces := vmd_nforces s4\<rparr>;
                s6 = imd_prepare_MD_Forces s5;
                s7 = (if MASTER cr then
                        (let s = imd_copyto_MD_Forces h s6 in
                         case outf s of None \<Rightarrow> s | Some fp \<Rightarrow> output_imd_forces s fp t)
                      else s6);
                s8 = (if PAR cr
                      then s7\<lparr>f_ind := block_bc cr (bc_f_ind bc) (f_ind s7),
                              f_md := block_bc cr (bc_f bc) (f_md s7)\<rparr>
                      else s7)
            in s8\<lparr>bNewForces := False\<rparr>
          else s3)"

text \<open>
  The whole group: the coordinator \<open>m\<close> and the workers \<open>ws\<close>. What the coordinator
  sends is read off its own run: the connected flag and the negotiated interval it holds
  on entry, its signed count, and the arrays it has filled.
\<close>

definition coordinator_cr :: "nat \<Rightarrow> t_commrec" where
  "coordinator_cr n = \<lparr>nnodes = n, nodeid = 0\<rparr>"

definition worker_cr :: "nat \<Rightarrow> nat \<Rightarrow> t_commrec" where
  "worker_cr n k = \<lparr>nnodes = n, nodeid = Suc k\<rparr>"

definition coordinator_sends :: "'a host_scheme \<Rightarrow> nat \<Rightarrow> real \<Rightarrow> t_gmx_IMD \<Rightarrow> imd_bcast" where
  "coordinator_sends h n t m =
     (let own = \<lparr>bc_bConnected = bConnected m, bc_nstimd_new = nstimd_new m,
                 bc_new_nforces = new_nforces_local (coordinator_cr n) m,
                 bc_f_ind = [], bc_f = []\<rparr>;
          m' = imd_sync_nodes h (coordinator_cr n) t own m
      in own\<lparr>bc_f_ind := f_ind m', bc_f := f_md m'\<rparr>)"

definition imd_sync_group ::
  "'a host_scheme \<Rightarrow> real \<Rightarrow> t_gmx_IMD \<Rightarrow> t_gmx_IMD list \<Rightarrow> t_gmx_IMD \<times> t_gmx_IMD list" where
  "imd_sync_group h t m ws =
     (let n = Suc (length ws); bc = coordinator_sends h n t m
      in (imd_sync_nodes h (coordinator_cr n) t bc m,
          map (\<lambda>(k, w). imd_sync_nodes h (worker_cr n k) t bc w) (enumerate 0 ws)))"

subsection \<open>Making molecules whole\<close>

text \<open>
  One turn of either loop of \<^verbatim>\<open>shift_positions\<close>, on one position. A C expression
  \<^verbatim>\<open>x - tx*a - ty*b - tz*c\<close> is evaluated from the left; every \<^verbatim>\<open>t\<close> is an
  \<^verbatim>\<open>int\<close> that is converted to \<^verbatim>\<open>real\<close> for its product.
\<close>

definition shift_vec :: "'a host_scheme \<Rightarrow> matrix \<Rightarrow> ivec \<Rightarrow> rvec \<Rightarrow> rvec" where
  "shift_vec h box is x =
     (case (box, is, x) of
        (((bxx, bxy, bxz), (byx, byy, byz), (bzx, bzy, bzz)), (tx, ty, tz), (xx, xy, xz)) \<Rightarrow>
          if TRICLINIC h box
          then (f_sub h (f_sub h (f_sub h xx (f_mul h (f_of_int h tx) bxx))
                                 (f_mul h (f_of_int h ty) byx))
                        (f_mul h (f_of_int h tz) bzx),
                f_sub h (f_sub h xy (f_mul h (f_of_int h ty) byy)) (f_mul h (f_of_int h tz) bzy),
                f_sub h xz (f_mul h (f_of_int h tz) bzz))
          else (f_sub h xx (f_mul h (f_of_int h tx) bxx),
                f_sub h xy (f_mul h (f_of_int h ty) byy),
                f_sub h xz (f_mul h (f_of_int h tz) bzz)))"

text \<open>
  \<^verbatim>\<open>shift_positions(box, x, is, nr)\<close>: \<open>x\<close> is the array from the pointer on; its first
  \<open>nr\<close> positions are shifted.
\<close>

definition shift_positions :: "'a host_scheme \<Rightarrow> matrix \<Rightarrow> rvec list \<Rightarrow> ivec \<Rightarrow> nat \<Rightarrow> rvec list" where
  "shift_positions h box x is n = map (shift_vec h box is) (take n x) @ drop n x"

text \<open>The inner loop of \<^verbatim>\<open>imd_remove_molshifts\<close> over the shifts of the atoms after the first.\<close>

fun shift_extremes :: "ivec list \<Rightarrow> ivec \<times> ivec \<Rightarrow> ivec \<times> ivec" where
  "shift_extremes [] (largest, smallest) = (largest, smallest)"
| "shift_extremes ((sx, sy, sz) # rest) ((lx, ly, lz), (mx, my, mz)) =
     shift_extremes rest
       ((if sx > lx then sx else lx, if sy > ly then sy else ly, if sz > lz then sz else lz),
        (if sx < mx then sx else mx, if sy < my then sy else my, if sz < mz then sz else mz))"

text \<open>One component of \<^verbatim>\<open>shift\<close>: cleared, set from \<^verbatim>\<open>smallest\<close>, then from \<^verbatim>\<open>largest\<close>.\<close>

definition axis_shift :: "int \<Rightarrow> int \<Rightarrow> int" where
  "axis_shift largest smallest =
     (let shift = 0;
          shift = (if smallest > 0 then smallest else shift);
          shift = (if largest < 0 then largest else shift)
      in shift)"

definition mol_shift :: "ivec list \<Rightarrow> nat \<Rightarrow> nat \<Rightarrow> ivec" where
  "mol_shift shifts start stop =
     (case shift_extremes (take (stop - Suc start) (drop (Suc start) shifts))
             (shifts ! start, shifts ! start) of
        ((lx, ly, lz), (mx, my, mz)) \<Rightarrow> (axis_shift lx mx, axis_shift ly my, axis_shift lz mz))"

text \<open>The body of the loop over the molecules, for molecule \<open>i\<close>, on the array \<^verbatim>\<open>xa\<close>.\<close>

definition remove_molshift :: "'a host_scheme \<Rightarrow> matrix \<Rightarrow> ivec list \<Rightarrow> t_block \<Rightarrow> nat \<Rightarrow> rvec list \<Rightarrow> rvec list" where
  "remove_molshift h box shifts mls i x =
     (let start = index mls ! i; stop = index mls ! Suc i;
          shift = mol_shift shifts start stop
      in if shift \<noteq> (0, 0, 0)
         then take start x @ shift_positions h box (drop start x) shift (stop - start)
         else x)"

definition imd_remove_molshifts :: "'a host_scheme \<Rightarrow> t_gmx_IMD \<Rightarrow> matrix \<Rightarrow> t_gmx_IMD" where
  "imd_remove_molshifts h IMDsetup box =
     IMDsetup\<lparr>xa := fold (remove_molshift h box (xa_shifts IMDsetup) (mols IMDsetup))
                        [0..<nr (mols IMDsetup)] (xa IMDsetup)\<rparr>"

subsection \<open>Vocabulary of the claims\<close>

text \<open>
  The messages a client puts on the wire: the kind as the integer sent, the length field
  and the payload. Header integers travel most significant byte first. A message is whole
  when its payload is what its header announces: for force data with a count \<open>N\<close> in
  range, \<open>N\<close> 4-byte indices and \<open>3 * N\<close> 4-byte floats; for every other kind nothing.
\<close>

record client_msg =
  msg_type :: int32_t
  msg_length :: int32_t
  msg_payload :: "byte list"

definition wire_bytes :: "client_msg \<Rightarrow> byte list" where
  "wire_bytes m = be_bytes (msg_type m) @ be_bytes (msg_length m) @ msg_payload m"

definition whole_msg :: "client_msg \<Rightarrow> bool" where
  "whole_msg m =
     (if msg_type m = IMDType_code IMD_MDCOMM
      then count_ok (sint (msg_length m)) \<and> length (msg_payload m) = 16 * nat (sint (msg_length m))
      else msg_payload m = [])"

text \<open>
  The dispatcher's table in the spec's words, reduced to the pause flag: a pause message
  toggles it, kill, force data and set-rate leave it, a disconnect or any other message
  ends the connection and with it the draining. \<open>leaves_paused p ms\<close>: after the
  messages \<open>ms\<close>, begun with the flag \<open>p\<close>, the session is still connected and paused.
\<close>

fun leaves_paused :: "bool \<Rightarrow> client_msg list \<Rightarrow> bool" where
  "leaves_paused p [] = p"
| "leaves_paused p (m # ms) =
     (if msg_type m = IMDType_code IMD_PAUSE then leaves_paused (\<not> p) ms
      else if msg_type m = IMDType_code IMD_KILL \<or> msg_type m = IMDType_code IMD_MDCOMM
              \<or> msg_type m = IMDType_code IMD_TRATE then leaves_paused p ms
      else False)"

text \<open>A run of set-rate messages as sent by a client on host \<open>hs\<close>, and the interval the
  spec's rule gives after them: a value above 0 is adopted, otherwise the default.\<close>

definition trate_bytes :: "'a host_scheme \<Rightarrow> int32_t list \<Rightarrow> byte list" where
  "trate_bytes hs vs = concat (map (\<lambda>v. header_bytes hs (fill_header hs IMD_TRATE v)) vs)"

definition rate_after :: "int \<Rightarrow> int \<Rightarrow> int32_t list \<Rightarrow> int" where
  "rate_after dflt cur vs = foldl (\<lambda>cur v. if 0 < sint v then sint v else dflt) cur vs"

text \<open>
  What the two payload reads of \<^verbatim>\<open>imd_recv_mdcomm\<close> for \<open>n\<close> declared atoms get from
  the socket: the index bytes and the force bytes. The forces are not read when the indices
  came up short. \<open>None\<close>: a read never returns, because the peer stays connected and
  sends nothing more. The payload is short when fewer than \<open>4 * n\<close> index bytes or fewer
  than \<open>12 * n\<close> force bytes came before the peer hung up or a read failed.
\<close>

definition payload_read :: "IMDSocket \<Rightarrow> nat \<Rightarrow> (byte list \<times> byte list) option" where
  "payload_read sock n =
     (case imd_read_multiple sock (4 * n) of
        None \<Rightarrow> None
      | Some (ibs, sock1) \<Rightarrow>
          if length ibs < 4 * n then Some (ibs, [])
          else (case imd_read_multiple sock1 (12 * n) of
                  None \<Rightarrow> None
                | Some (fbs, sock2) \<Rightarrow> Some (ibs, fbs)))"

definition short_payload :: "nat \<Rightarrow> byte list \<times> byte list \<Rightarrow> bool" where
  "short_payload n got = (length (fst got) < 4 * n \<or> length (snd got) < 12 * n)"

text \<open>The force-related state that the synchronizer maintains.\<close>

definition force_state :: "t_gmx_IMD \<Rightarrow> int \<times> int \<times> int list \<times> rvec list \<times> bool" where
  "force_state s = (nstimd s, nforces s, f_ind s, f_md s, bNewForces s)"

text \<open>
  The molecule block as \<^verbatim>\<open>init_imd_prepare_mols_in_imdgroup\<close> builds it: \<open>nr + 1\<close>
  strictly increasing offsets into the arrays of the tracked atoms. \<open>mol_atoms mls i\<close>
  are the positions of molecule \<open>i\<close> in those arrays.
\<close>

definition mols_ok :: "t_block \<Rightarrow> nat \<Rightarrow> bool" where
  "mols_ok mls natoms =
     (length (index mls) = Suc (nr mls) \<and> sorted_wrt (<) (index mls) \<and> last (index mls) \<le> natoms)"

definition mol_atoms :: "t_block \<Rightarrow> nat \<Rightarrow> nat list" where
  "mol_atoms mls i = [index mls ! i..<index mls ! Suc i]"

text \<open>The spec's rule for one axis, on the set of the shifts of a molecule's atoms along it:
  the minimum if that is positive, the maximum if that is negative, else no shift.\<close>

definition extreme_shift :: "int set \<Rightarrow> int" where
  "extreme_shift A = (if Min A > 0 then Min A else if Max A < 0 then Max A else 0)"

definition rvec_sub :: "rvec \<Rightarrow> rvec \<Rightarrow> rvec" where
  "rvec_sub a b = (case (a, b) of ((ax, ay, az), (bx, by, bz)) \<Rightarrow> (ax - bx, ay - by, az - bz))"

text \<open>The host computes exactly: none of its three floating-point operations rounds.\<close>

definition exact_arith :: "'a host_scheme \<Rightarrow> bool" where
  "exact_arith h =
     (f_of_int h = real_of_int \<and> f_mul h = (\<lambda>x y. x * y) \<and> f_sub h = (\<lambda>x y. x - y))"

text \<open>
  Single precision as IEEE 754 defines it, for values in the normal range: a real \<open>x\<close>
  with \<open>2^e \<le> |x| < 2^(e+1)\<close> is rounded to the nearest multiple of \<open>2^(e-23)\<close>, a tie
  to the even multiple. \<open>bit_length n\<close> is the number of binary digits of \<open>n\<close>.
\<close>

fun bit_length :: "nat \<Rightarrow> nat" where
  "bit_length n = (if n = 0 then 0 else Suc (bit_length (n div 2)))"

definition binary_exponent :: "real \<Rightarrow> int" where
  "binary_exponent x =
     (if 1 \<le> \<bar>x\<bar> then int (bit_length (nat \<lfloor>\<bar>x\<bar>\<rfloor>)) - 1
      else - int (bit_length (nat (\<lceil>1 / \<bar>x\<bar>\<rceil> - 1))))"

definition round_half_even :: "real \<Rightarrow> int" where
  "round_half_even m =
     (let n = \<lfloor>m\<rfloor>; r = m - of_int n
      in if r < 1 / 2 then n else if r > 1 / 2 then n + 1 else if even n then n else n + 1)"

definition binary32 :: "real \<Rightarrow> real" where
  "binary32 x =
     (if x = 0 then 0
      else let u = 2 powi (binary_exponent x - 23)
           in of_int (round_half_even (x / u)) * u)"

subsection \<open>Concrete sessions\<close>

text \<open>
  A little-endian host whose \<^verbatim>\<open>real\<close> is single precision, the same host with exact
  arithmetic, a client socket on which nothing has happened, the struct as
  \<^verbatim>\<open>snew\<close> leaves it (all zero), and the sessions at which claims are evaluated.
\<close>

definition example_host :: host where
  "example_host =
     \<lparr>little_endian = True, md_force = (\<lambda>bs. 0), TRICLINIC = (\<lambda>box. False),
      f_of_int = (\<lambda>t. binary32 (real_of_int t)),
      f_mul = (\<lambda>x y. binary32 (x * y)),
      f_sub = (\<lambda>x y. binary32 (x - y))\<rparr>"

definition exact_host :: host where
  "exact_host =
     example_host\<lparr>f_of_int := real_of_int, f_mul := (\<lambda>x y. x * y), f_sub := (\<lambda>x y. x - y)\<rparr>"

definition silent_socket :: IMDSocket where
  "silent_socket = \<lparr>avail = [], future = [], sent = [], wscript = []\<rparr>"

definition IMD_zero :: t_gmx_IMD where
  "IMD_zero =
     \<lparr>sessionPossible = False, outf = None, nat_imd = 0, ind = [], xa = [], xa_shifts = [],
      nstimd = 0, nstimd_new = 0, nstimd_def = 0, port = 0, socket = \<lparr>backlog = []\<rparr>,
      clientsocket = None, length_hdr = 0, bWConnect = False, bTerminated = False,
      bTerminatable = False, bConnected = False, bNewForces = False, bForceActivated = False,
      vmd_nforces = 0, vmd_f_ind = [], vmd_forces = [], nforces = 0, f_ind = [], f_md = [],
      mols = \<lparr>nr = 0, index = []\<rparr>, old_nforces = 0, old_f_ind = [], old_forces = [],
      stop_condition = gmx_stop_cond_none\<rparr>"

text \<open>A connected session with pulling enabled whose client has a given input waiting.\<close>

definition connected_session :: "IMDSocket \<Rightarrow> t_gmx_IMD" where
  "connected_session sock = (prepareSession 4 10 8888 IMD_zero)
     \<lparr>clientsocket := Some sock, bConnected := True, bForceActivated := True\<rparr>"

text \<open>C1: the client announces two forces, sends three bytes and hangs up.\<close>

definition c1_client :: IMDSocket where
  "c1_client = silent_socket
     \<lparr>avail := header_bytes example_host (fill_header example_host IMD_MDCOMM 2) @ [1, 2, 3],
       future := [Hangup]\<rparr>"

text \<open>C2: a listening session with one client waiting whose first message is a pause, and
  one whose client sends nothing.\<close>

definition c2_wrong_first :: t_gmx_IMD where
  "c2_wrong_first = (prepareSession 4 10 8888 IMD_zero)
     \<lparr>socket := \<lparr>backlog =
        [Some (silent_socket\<lparr>avail := header_bytes example_host (fill_header example_host IMD_PAUSE 0)\<rparr>)]\<rparr>\<rparr>"

definition c2_no_message :: t_gmx_IMD where
  "c2_no_message = (prepareSession 4 10 8888 IMD_zero)\<lparr>socket := \<lparr>backlog = [Some silent_socket]\<rparr>\<rparr>"

text \<open>C4: a coordinator without a client, and a worker that still holds one applied force
  and believes the session connected.\<close>

definition c4_worker :: t_gmx_IMD where
  "c4_worker = (prepareSession 4 10 8888 IMD_zero)
     \<lparr>bConnected := True, bForceActivated := True, nstimd := 5, nforces := 1, f_ind := [2],
       f_md := [(1, 0, 0)], bNewForces := True\<rparr>"

definition c4_coordinator :: t_gmx_IMD where
  "c4_coordinator = (prepareSession 4 10 8888 IMD_zero)
     \<lparr>bForceActivated := True, vmd_nforces := 1, bNewForces := True\<rparr>"

text \<open>C8: two molecules, atoms 0 and 1 and atom 2, in a cubic box of edge 3. The atoms of
  the first molecule sit one and two boxes away along XX.\<close>

definition c8_box :: matrix where
  "c8_box = ((3, 0, 0), (0, 3, 0), (0, 0, 3))"

definition c8_session :: t_gmx_IMD where
  "c8_session = (prepareSession 3 10 8888 IMD_zero)
     \<lparr>xa := [(7 / 2, 1 / 2, 1 / 2), (13 / 2, 1, 1 / 2), (1, 1, 1)],
       xa_shifts := [(1, 0, 0), (2, 0, - 1), (0, 0, 0)],
       mols := \<lparr>nr = 2, index = [0, 2, 3]\<rparr>\<rparr>"

text \<open>C8: one molecule of two atoms a tenth of a nanometre apart along XX (the single
  precision numbers nearest to 0.1 and 0.2), both one box below along XX.\<close>

definition c8_float_session :: t_gmx_IMD where
  "c8_float_session = (prepareSession 2 10 8888 IMD_zero)
     \<lparr>xa := [(binary32 (1 / 10), 0, 0), (binary32 (2 / 10), 0, 0)],
       xa_shifts := [(- 1, 0, 0), (- 1, 0, 0)],
       mols := \<lparr>nr = 1, index = [0, 2]\<rparr>\<rparr>"

text \<open>C9: messages without payload.\<close>

definition bare_msg :: "IMDMessageType \<Rightarrow> int32_t \<Rightarrow> client_msg" where
  "bare_msg kind len = \<lparr>msg_type = IMDType_code kind, msg_length = len, msg_payload = []\<rparr>"

section \<open>Termination\<close>

text \<open>Every read that brings data, and every failed read, uses up part of what the peer
  still has to deliver; both loops over the socket therefore end.\<close>

lemma sock_read_size:
  "sock_read av fut n = Some (r, av', fut') \<Longrightarrow>
   length av' + sum_list (map event_size fut') + (case r of RBytes bs \<Rightarrow> length bs | RFail e \<Rightarrow> 1)
     \<le> length av + sum_list (map event_size fut)"
  by (induction av fut n rule: sock_read.induct) (auto split: if_splits)

lemma imdsock_read_size:
  "imdsock_read sock n = Some (r, sock') \<Longrightarrow>
   sock_size sock' + (case r of RBytes bs \<Rightarrow> length bs | RFail e \<Rightarrow> 1) \<le> sock_size sock"
  by (auto simp: imdsock_read_def sock_size_def split: option.splits dest: sock_read_size)

termination imd_read_multiple
proof (relation "measure (\<lambda>(sock, leftcount). sock_size sock)")
  show "wf (measure (\<lambda>(sock, leftcount). sock_size sock))"
    by simp
next
  fix sock :: IMDSocket and leftcount :: nat and x2 x1 sock' x22 and eintr :: bool
  assume "imdsock_read sock leftcount = Some x2" "(x1, sock') = x2" "x1 = RFail eintr"
  then have "imdsock_read sock leftcount = Some (RFail eintr, sock')"
    by simp
  from imdsock_read_size [OF this]
  show "((sock', leftcount), (sock, leftcount)) \<in> measure (\<lambda>(sock, leftcount). sock_size sock)"
    by simp
next
  fix sock :: IMDSocket and leftcount :: nat and x2 x1 sock' and bs :: "byte list"
  assume "imdsock_read sock leftcount = Some x2" "(x1, sock') = x2" "x1 = RBytes bs" "bs \<noteq> []"
  then have "imdsock_read sock leftcount = Some (RBytes bs, sock')" and "0 < length bs"
    by simp_all
  with imdsock_read_size [of sock leftcount "RBytes bs" sock']
  have "sock_size sock' < sock_size sock"
    by (cases bs) simp_all
  then show "((sock', leftcount - length bs), (sock, leftcount)) \<in> measure (\<lambda>(sock, leftcount). sock_size sock)"
    by simp
qed

declare imd_read_multiple.simps [simp del]

lemma imd_read_multiple_size:
  "imd_read_multiple sock n = Some (bs, sock') \<Longrightarrow> sock_size sock' + length bs \<le> sock_size sock"
proof (induction sock n arbitrary: bs sock' rule: imd_read_multiple.induct)
  case (1 sock leftcount)
  show ?case
  proof (cases "leftcount = 0")
    case True
    with "1.prems" show ?thesis
      by (subst (asm) imd_read_multiple.simps) simp
  next
    case False
    from "1.prems" False obtain r sock1 where rd: "imdsock_read sock leftcount = Some (r, sock1)"
      by (subst (asm) imd_read_multiple.simps) (auto split: option.splits)
    note sz = imdsock_read_size [OF rd]
    show ?thesis
    proof (cases r)
      case (RFail eintr)
      show ?thesis
      proof (cases eintr)
        case True
        with "1.prems" False rd RFail have "imd_read_multiple sock1 leftcount = Some (bs, sock')"
          by (subst (asm) imd_read_multiple.simps) simp
        from "1.IH"(2) [OF False rd refl RFail True this] sz RFail
        show ?thesis by simp
      next
        case no: False
        with "1.prems" False rd RFail have "bs = []" "sock' = sock1"
          by (subst (asm) imd_read_multiple.simps, simp)+
        with sz RFail show ?thesis by simp
      qed
    next
      case (RBytes got)
      show ?thesis
      proof (cases "got = []")
        case True
        with "1.prems" False rd RBytes have "bs = []" "sock' = sock1"
          by (subst (asm) imd_read_multiple.simps, simp)+
        with sz RBytes show ?thesis by simp
      next
        case ne: False
        with "1.prems" False rd RBytes obtain rest where
          rest: "imd_read_multiple sock1 (leftcount - length got) = Some (rest, sock')"
          and bs: "bs = got @ rest"
          by (subst (asm) imd_read_multiple.simps) (auto split: option.splits)
        from "1.IH"(1) [OF False rd refl RBytes ne rest] sz RBytes bs
        show ?thesis by simp
      qed
    qed
  qed
qed

lemma imdsock_tryread_size:
  "imdsock_tryread sock t = (r, sock') \<Longrightarrow> sock_size sock' \<le> sock_size sock"
proof -
  have "sock_poll av fut t = (r, av', fut') \<Longrightarrow>
        length av' + sum_list (map event_size fut') \<le> length av + sum_list (map event_size fut)"
    for av fut av' fut'
    by (induction av fut t rule: sock_poll.induct) (auto split: if_splits)
  then show "imdsock_tryread sock t = (r, sock') \<Longrightarrow> sock_size sock' \<le> sock_size sock"
    by (auto simp: imdsock_tryread_def sock_size_def split: prod.splits)
qed

lemma imd_recv_header_size:
  assumes "imd_recv_header h sock len0 = Some (itype, len, sock')"
  shows "sock_size sock' \<le> sock_size sock"
    and "itype \<noteq> IMDType_code IMD_IOERROR \<Longrightarrow> sock_size sock' < sock_size sock"
  using assms
  by (auto simp: imd_recv_header_def c_headerSize_def Let_def
      split: option.splits if_splits dest!: imd_read_multiple_size)

lemma imd_recv_mdcomm_size:
  "imd_recv_mdcomm sock n forcendx forces = Some (ok, forcendx', forces', sock') \<Longrightarrow>
   sock_size sock' \<le> sock_size sock"
  by (auto simp: imd_recv_mdcomm_def Let_def split: option.splits if_splits
      dest!: imd_read_multiple_size)

lemma loop_measure_disconnect [simp]: "loop_measure (imd_disconnect s) = 0"
  by (simp add: loop_measure_def imd_disconnect_def)

lemma imd_read_vmd_Forces_measure:
  "imd_read_vmd_Forces s = Inr s' \<Longrightarrow> loop_measure s' \<le> loop_measure s"
  by (auto simp: imd_read_vmd_Forces_def imd_prepare_vmd_Forces_def imd_fatal_def
      imd_disconnect_def loop_measure_def Let_def
      split: option.splits if_splits dest!: imd_recv_mdcomm_size)

lemma imd_readcommand_switch_measure:
  assumes "imd_readcommand_switch itype IMDpaused s = Inr (p', s')"
  shows "loop_measure s' \<le> loop_measure s"
    and "itype = IMDType_code IMD_IOERROR \<Longrightarrow> loop_measure s' = 0"
  using assms
  by (auto simp: imd_readcommand_switch_def imd_fatal_def imd_disconnect_def loop_measure_def
      split: if_splits sum.splits dest!: imd_read_vmd_Forces_measure)

lemma imd_readcommand_body_measure:
  assumes "clientsocket s = Some sock" and "imd_readcommand_body h IMDpaused s = Inr (p', s')"
  shows "loop_measure s' < Suc (sock_size sock)"
proof -
  from assms obtain itype len sock1 where
    hd: "imd_recv_header h sock (length_hdr s) = Some (itype, len, sock1)" and
    sw: "imd_readcommand_switch itype IMDpaused (s\<lparr>clientsocket := Some sock1, length_hdr := len\<rparr>) = Inr (p', s')"
    by (auto simp: imd_readcommand_body_def split: option.splits)
  have m1: "loop_measure (s\<lparr>clientsocket := Some sock1, length_hdr := len\<rparr>) = Suc (sock_size sock1)"
    by (simp add: loop_measure_def)
  show ?thesis
  proof (cases "itype = IMDType_code IMD_IOERROR")
    case True
    from imd_readcommand_switch_measure(2) [OF sw True] show ?thesis by simp
  next
    case False
    from imd_recv_header_size(2) [OF hd False] imd_readcommand_switch_measure(1) [OF sw] m1
    show ?thesis by simp
  qed
qed

termination imd_readcommand_loop
proof (relation "measure (\<lambda>(h, IMDpaused, IMDsetup). loop_measure IMDsetup)")
  show "wf (measure (\<lambda>(h, IMDpaused, IMDsetup). loop_measure IMDsetup))"
    by simp
next
  fix h :: "'a host_scheme" and IMDpaused :: bool and IMDsetup :: t_gmx_IMD
    and sock r sock1 b paused' s'
  assume cs: "clientsocket IMDsetup = Some sock"
    and poll: "(r, sock1) = imdsock_tryread sock 0"
    and "0 < r \<or> IMDpaused"
    and body: "imd_readcommand_body h IMDpaused (IMDsetup\<lparr>clientsocket := Some sock1\<rparr>) = Inr b"
      "(paused', s') = b"
  from poll have "imdsock_tryread sock 0 = (r, sock1)"
    by simp
  then have le: "sock_size sock1 \<le> sock_size sock"
    by (rule imdsock_tryread_size)
  from body have "imd_readcommand_body h IMDpaused (IMDsetup\<lparr>clientsocket := Some sock1\<rparr>) = Inr (paused', s')"
    by simp
  from imd_readcommand_body_measure [OF _ this, of sock1] le cs
  show "((h, paused', s'), (h, IMDpaused, IMDsetup)) \<in> measure (\<lambda>(h, IMDpaused, IMDsetup). loop_measure IMDsetup)"
    by (simp add: loop_measure_def)
qed

declare imd_write_multiple.simps [simp del]
declare imd_readcommand_loop.simps [simp del]

section \<open>Facts\<close>

subsection \<open>Facts about the codec\<close>

lemma be_word_be_bytes: "be_word (be_bytes w) = w"
  unfolding be_word_def be_bytes_def
  apply simp
  apply (rule bit_word_eqI)
  subgoal for n
    by (cases "n < 8"; cases "n < 16"; cases "n < 24") (auto simp add: bit_simps not_less)
  done

lemma be_bytes_be_word4: "be_bytes (be_word [a, b, c, d]) = [a, b, c, d]"
  unfolding be_word_def be_bytes_def
  apply simp
  apply (intro conjI; rule bit_word_eqI)
     apply (auto simp add: bit_simps dest: bit_imp_le_length)
  done

lemma length_be_bytes: "length (be_bytes w) = 4"
  by (simp add: be_bytes_def)

lemma length_host_bytes: "length (host_bytes h w) = 4"
  by (simp add: host_bytes_def length_be_bytes)

lemma host_word_host_bytes: "host_word h (host_bytes h w) = w"
  by (simp add: host_word_def host_bytes_def be_word_be_bytes)

lemma host_bytes_imd_htonl: "host_bytes h (imd_htonl h w) = be_bytes w"
proof -
  obtain a b c d where w: "be_bytes w = [a, b, c, d]"
    by (simp add: be_bytes_def)
  show ?thesis
    by (simp add: host_bytes_def imd_htonl_def host_word_def w be_bytes_be_word4)
qed

lemma imd_ntohl_host_word: "length bs = 4 \<Longrightarrow> imd_ntohl h (host_word h bs) = be_word bs"
proof -
  assume "length bs = 4"
  then obtain a b c d where bs: "bs = [a, b, c, d]"
    by (auto simp: length_Suc_conv eval_nat_numeral)
  show ?thesis
    by (simp add: imd_ntohl_def host_word_def host_bytes_def bs be_bytes_be_word4)
qed

lemma imd_ntohl_imd_htonl: "imd_ntohl h (imd_htonl h w) = w"
  by (simp add: imd_ntohl_def host_bytes_imd_htonl be_word_be_bytes)

lemma header_bytes_fill_header:
  "header_bytes h (fill_header h kind len) = be_bytes (IMDType_code kind) @ be_bytes len"
  by (simp add: header_bytes_def fill_header_def host_bytes_imd_htonl)

lemma swap_header_of_wire:
  "swap_header h (header_of_bytes h (be_bytes ty @ be_bytes len)) = \<lparr>type_h = ty, length_h = len\<rparr>"
  by (simp add: swap_header_def header_of_bytes_def length_be_bytes imd_ntohl_host_word
      be_word_be_bytes)

lemma IMDType_code_inj: "IMDType_code k = IMDType_code k' \<Longrightarrow> k = k'"
  by (cases k; cases k'; simp)

text \<open>Reading from a socket that already holds enough bytes takes exactly those bytes.\<close>

lemma imd_read_multiple_0: "imd_read_multiple sock 0 = Some ([], sock)"
  by (subst imd_read_multiple.simps) simp

lemma imd_read_multiple_avail:
  "n \<le> length (avail sock) \<Longrightarrow>
   imd_read_multiple sock n = Some (take n (avail sock), sock\<lparr>avail := drop n (avail sock)\<rparr>)"
proof (cases "n = 0")
  case True
  then show ?thesis by (simp add: imd_read_multiple_0)
next
  case False
  assume n: "n \<le> length (avail sock)"
  with False obtain b bs where av: "avail sock = b # bs"
    by (cases "avail sock") auto
  have rd: "imdsock_read sock n = Some (RBytes (take n (avail sock)), sock\<lparr>avail := drop n (avail sock)\<rparr>)"
    by (simp add: imdsock_read_def av)
  have ne: "take n (avail sock) \<noteq> []"
    using False av by (cases n) auto
  have len: "n - length (take n (avail sock)) = 0"
    using n by simp
  show ?thesis
    by (subst imd_read_multiple.simps) (simp add: rd ne len False imd_read_multiple_0 del: length_take)
qed

lemma imd_recv_header_avail:
  "imd_recv_header h (sock\<lparr>avail := be_bytes ty @ be_bytes len @ rest\<rparr>) len0 =
     Some (ty, sint len, sock\<lparr>avail := rest\<rparr>)"
proof -
  let ?s = "sock\<lparr>avail := be_bytes ty @ be_bytes len @ rest\<rparr>"
  have "imd_read_multiple ?s 8 = Some (take 8 (avail ?s), ?s\<lparr>avail := drop 8 (avail ?s)\<rparr>)"
    by (rule imd_read_multiple_avail) (simp add: length_be_bytes)
  then have "imd_read_multiple ?s 8 = Some (be_bytes ty @ be_bytes len, sock\<lparr>avail := rest\<rparr>)"
    by (simp add: length_be_bytes)
  then show ?thesis
    by (simp add: imd_recv_header_def c_headerSize_def length_be_bytes swap_header_of_wire)
qed

subsection \<open>Facts about sockets and the drain loop\<close>

lemma sock_poll_avail: "avail sock \<noteq> [] \<Longrightarrow> imdsock_tryread sock t = (1, sock)"
  by (cases "avail sock") (simp_all add: imdsock_tryread_def)

lemma sock_poll_silent: "avail sock = [] \<Longrightarrow> future sock = [] \<Longrightarrow> imdsock_tryread sock t = (0, sock)"
  by (simp add: imdsock_tryread_def)

lemma recv_header_silent:
  "avail sock = [] \<Longrightarrow> future sock = [] \<Longrightarrow> imd_recv_header h sock len0 = None"
  by (simp add: imd_recv_header_def c_headerSize_def imd_read_multiple.simps imdsock_read_def)

lemma loop_no_client: "clientsocket s = None \<Longrightarrow> imd_readcommand_loop h p s = Inr s"
  by (simp add: imd_readcommand_loop.simps)

lemma loop_silent:
  assumes "clientsocket s = Some sock" "avail sock = []" "future sock = []"
  shows "imd_readcommand_loop h p s = (if p then Inl Blocked else Inr s)"
proof -
  have s: "s\<lparr>clientsocket := Some sock\<rparr> = s"
    using assms(1) by simp
  show ?thesis
    by (subst imd_readcommand_loop.simps)
       (simp add: assms sock_poll_silent s imd_readcommand_body_def recv_header_silent)
qed

lemma loop_available:
  assumes "clientsocket s = Some sock" "avail sock = be_bytes ty @ be_bytes len @ rest"
  shows "imd_readcommand_loop h p s =
     (case imd_readcommand_switch ty p
             (s\<lparr>clientsocket := Some (sock\<lparr>avail := rest\<rparr>), length_hdr := sint len\<rparr>) of
        Inl e \<Rightarrow> Inl e
      | Inr (p', s') \<Rightarrow> imd_readcommand_loop h p' s')"
proof -
  have s: "s\<lparr>clientsocket := Some sock\<rparr> = s"
    using assms(1) by simp
  have ne: "avail sock \<noteq> []"
    by (simp add: assms(2) be_bytes_def)
  have "sock = sock\<lparr>avail := be_bytes ty @ be_bytes len @ rest\<rparr>"
    using assms(2) by simp
  then have hd: "imd_recv_header h sock (length_hdr s) = Some (ty, sint len, sock\<lparr>avail := rest\<rparr>)"
    using imd_recv_header_avail [where h = h and sock = sock and ty = ty and len = len
        and rest = rest and ?len0.0 = "length_hdr s"]
    by simp
  show ?thesis
    by (subst imd_readcommand_loop.simps)
       (simp add: assms(1) sock_poll_avail [OF ne] s imd_readcommand_body_def hd)
qed

lemma body_header:
  assumes "clientsocket s = Some sock"
    and "avail sock = header_bytes hs (fill_header hs kind len) @ rest"
  shows "imd_readcommand_body h p s =
     imd_readcommand_switch (IMDType_code kind) p
       (s\<lparr>clientsocket := Some (sock\<lparr>avail := rest\<rparr>), length_hdr := sint len\<rparr>)"
proof -
  have "sock = sock\<lparr>avail := header_bytes hs (fill_header hs kind len) @ rest\<rparr>"
    using assms(2) by simp
  then have "imd_recv_header h sock (length_hdr s) = Some (IMDType_code kind, sint len, sock\<lparr>avail := rest\<rparr>)"
    using imd_recv_header_avail [where h = h and sock = sock and ty = "IMDType_code kind" and len = len and rest = rest and ?len0.0 = "length_hdr s"]
    by (simp add: header_bytes_fill_header)
  then show ?thesis
    by (simp add: imd_readcommand_body_def assms(1))
qed

lemma write_all: "wscript sock = [] \<Longrightarrow> imd_write_multiple sock dat = (length dat, sock\<lparr>sent := sent sock @ dat\<rparr>)"
proof (cases "dat = []")
  case True
  then show ?thesis by (simp add: imd_write_multiple.simps)
next
  case False
  assume w: "wscript sock = []"
  from False have "Suc (length dat - 1) = length dat"
    by (cases dat) simp_all
  with w False show ?thesis
    by (subst imd_write_multiple.simps)
       (simp add: imdsock_write_def imd_write_multiple.simps [of _ "[]"])
qed

lemma handshake_ok: "wscript sock = [] \<Longrightarrow> fst (imd_handshake h sock) = False"
  by (simp add: imd_handshake_def write_all Let_def header_bytes_def length_host_bytes c_headerSize_def)

lemma store_bytes_full: "length bs = n \<Longrightarrow> store_bytes (srenew buf n fill) bs = bs"
  by (simp add: store_bytes_def srenew_def)

lemma imd_recv_mdcomm_avail:
  assumes "avail sock = payload @ rest" "length payload = 16 * n"
  shows "imd_recv_mdcomm sock n (srenew b1 (4 * n) 0) (srenew b2 (12 * n) 0) =
     Some (True, take (4 * n) payload, drop (4 * n) payload, sock\<lparr>avail := rest\<rparr>)"
proof -
  have r1: "imd_read_multiple sock (4 * n) =
      Some (take (4 * n) payload, sock\<lparr>avail := drop (4 * n) payload @ rest\<rparr>)"
    using imd_read_multiple_avail [of "4 * n" sock] assms by simp
  have r2: "imd_read_multiple (sock\<lparr>avail := drop (4 * n) payload @ rest\<rparr>) (12 * n) =
      Some (drop (4 * n) payload, sock\<lparr>avail := rest\<rparr>)"
    using imd_read_multiple_avail [of "12 * n" "sock\<lparr>avail := drop (4 * n) payload @ rest\<rparr>"] assms
    by simp
  have l1: "length (take (4 * n) payload) = 4 * n" and l2: "length (drop (4 * n) payload) = 12 * n"
    using assms(2) by simp_all
  show ?thesis
    by (simp add: imd_recv_mdcomm_def r1 r2 Let_def store_bytes_full [OF l1] store_bytes_full [OF l2]
        assms(2))
qed

lemma imd_read_vmd_Forces_avail:
  assumes "clientsocket s = Some sock" "avail sock = payload @ rest"
    "count_ok (length_hdr s)" "length payload = 16 * nat (length_hdr s)"
  shows "imd_read_vmd_Forces s =
     Inr (s\<lparr>vmd_nforces := length_hdr s,
            vmd_f_ind := take (4 * nat (length_hdr s)) payload,
            vmd_forces := drop (4 * nat (length_hdr s)) payload,
            clientsocket := Some (sock\<lparr>avail := rest\<rparr>)\<rparr>)"
  using assms
  by (simp add: imd_read_vmd_Forces_def imd_prepare_vmd_Forces_def Let_def
      imd_recv_mdcomm_avail [OF assms(2) assms(4)])

lemma drain_whole_messages:
  assumes "clientsocket s = Some sock"
    and "avail sock = concat (map wire_bytes ms)"
    and "future sock = []"
    and "list_all whole_msg ms"
  shows "(imd_readcommand_loop h p s = Inl Blocked \<longleftrightarrow> leaves_paused p ms)
       \<and> ((\<exists>s'. imd_readcommand_loop h p s = Inr s') \<longleftrightarrow> \<not> leaves_paused p ms)"
  using assms
proof (induction ms arbitrary: s sock p)
  case Nil
  then show ?case by (simp add: loop_silent)
next
  case (Cons m ms)
  let ?rest = "concat (map wire_bytes ms)"
  let ?s1 = "s\<lparr>clientsocket := Some (sock\<lparr>avail := msg_payload m @ ?rest\<rparr>),
               length_hdr := sint (msg_length m)\<rparr>"
  from Cons.prems have av: "avail sock = be_bytes (msg_type m) @ be_bytes (msg_length m) @ msg_payload m @ ?rest"
    by (simp add: wire_bytes_def [of m])
  note unroll = loop_available [OF Cons.prems(1) av, of h p]
  from Cons.prems have whole: "whole_msg m" and wholes: "list_all whole_msg ms"
    by simp_all
  have IH: "(imd_readcommand_loop h q t = Inl Blocked \<longleftrightarrow> leaves_paused q ms)
       \<and> ((\<exists>s'. imd_readcommand_loop h q t = Inr s') \<longleftrightarrow> \<not> leaves_paused q ms)"
    if "clientsocket t = Some (sock\<lparr>avail := ?rest\<rparr>)" for t q
    using Cons.IH [OF that _ _ wholes] Cons.prems(3) by simp
  consider (kill) "msg_type m = IMDType_code IMD_KILL"
    | (disconnect) "msg_type m = IMDType_code IMD_DISCONNECT"
    | (mdcomm) "msg_type m = IMDType_code IMD_MDCOMM"
    | (pause) "msg_type m = IMDType_code IMD_PAUSE"
    | (trate) "msg_type m = IMDType_code IMD_TRATE"
    | (other) "msg_type m \<noteq> IMDType_code IMD_KILL" "msg_type m \<noteq> IMDType_code IMD_DISCONNECT"
        "msg_type m \<noteq> IMDType_code IMD_MDCOMM" "msg_type m \<noteq> IMDType_code IMD_PAUSE"
        "msg_type m \<noteq> IMDType_code IMD_TRATE"
    by blast
  then show ?case
  proof cases
    case kill
    with whole have pl: "msg_payload m = []"
      by (simp add: whole_msg_def)
    show ?thesis
      unfolding unroll using kill
      by (simp add: imd_readcommand_switch_def pl IH)
  next
    case disconnect
    show ?thesis
      unfolding unroll using disconnect
      by (simp add: imd_readcommand_switch_def imd_disconnect_def loop_no_client)
  next
    case mdcomm
    with whole have ok: "count_ok (length_hdr ?s1)"
      and len: "length (msg_payload m) = 16 * nat (length_hdr ?s1)"
      by (simp_all add: whole_msg_def)
    have rd: "imd_read_vmd_Forces ?s1 =
        Inr (?s1\<lparr>vmd_nforces := length_hdr ?s1,
                 vmd_f_ind := take (4 * nat (length_hdr ?s1)) (msg_payload m),
                 vmd_forces := drop (4 * nat (length_hdr ?s1)) (msg_payload m),
                 clientsocket := Some (sock\<lparr>avail := msg_payload m @ ?rest, avail := ?rest\<rparr>)\<rparr>)"
      by (rule imd_read_vmd_Forces_avail [OF _ _ ok len]) simp_all
    show ?thesis
      unfolding unroll using mdcomm
      by (simp add: imd_readcommand_switch_def rd IH)
  next
    case pause
    with whole have pl: "msg_payload m = []"
      by (simp add: whole_msg_def)
    show ?thesis
      unfolding unroll using pause
      by (simp add: imd_readcommand_switch_def pl IH)
  next
    case trate
    with whole have pl: "msg_payload m = []"
      by (simp add: whole_msg_def)
    show ?thesis
      unfolding unroll using trate
      by (simp add: imd_readcommand_switch_def pl IH)
  next
    case other
    show ?thesis
      unfolding unroll using other
      by (simp add: imd_readcommand_switch_def imd_fatal_def imd_disconnect_def loop_no_client)
  qed
qed

lemma sock_read_length:
  "sock_read av fut n = Some (RBytes got, av', fut') \<Longrightarrow> length got \<le> n"
  by (induction av fut n rule: sock_read.induct) auto

lemma imd_read_multiple_length:
  "imd_read_multiple sock n = Some (bs, sock') \<Longrightarrow> length bs \<le> n"
proof (induction sock n arbitrary: bs sock' rule: imd_read_multiple.induct)
  case (1 sock leftcount)
  show ?case
  proof (cases "leftcount = 0")
    case True
    with "1.prems" show ?thesis
      by (subst (asm) imd_read_multiple.simps) simp
  next
    case False
    from "1.prems" False obtain r sock1 where rd: "imdsock_read sock leftcount = Some (r, sock1)"
      by (subst (asm) imd_read_multiple.simps) (auto split: option.splits)
    show ?thesis
    proof (cases r)
      case (RFail eintr)
      show ?thesis
      proof (cases eintr)
        case True
        with "1.prems" False rd RFail have "imd_read_multiple sock1 leftcount = Some (bs, sock')"
          by (subst (asm) imd_read_multiple.simps) simp
        from "1.IH"(2) [OF False rd refl RFail True this]
        show ?thesis .
      next
        case no: False
        with "1.prems" False rd RFail have "bs = []"
          by (subst (asm) imd_read_multiple.simps) simp
        then show ?thesis by simp
      qed
    next
      case (RBytes got)
      from rd RBytes have got: "length got \<le> leftcount"
        by (auto simp: imdsock_read_def split: option.splits dest: sock_read_length)
      show ?thesis
      proof (cases "got = []")
        case True
        with "1.prems" False rd RBytes have "bs = []"
          by (subst (asm) imd_read_multiple.simps) simp
        then show ?thesis by simp
      next
        case ne: False
        with "1.prems" False rd RBytes obtain rest where
          rest: "imd_read_multiple sock1 (leftcount - length got) = Some (rest, sock')"
          and bs: "bs = got @ rest"
          by (subst (asm) imd_read_multiple.simps) (auto split: option.splits)
        from "1.IH"(1) [OF False rd refl RBytes ne rest] got bs
        show ?thesis by simp
      qed
    qed
  qed
qed

lemma length_store_bytes: "length (store_bytes buf bs) = max (length bs) (length buf)"
  by (simp add: store_bytes_def max_def)

lemma length_srenew: "length (srenew xs n fill) = n"
  by (simp add: srenew_def)

lemma store_bytes_Nil: "store_bytes buf [] = buf"
  by (simp add: store_bytes_def)

lemma take_store_bytes: "take (length bs) (store_bytes buf bs) = bs"
  by (simp add: store_bytes_def)

lemma imd_recv_mdcomm_blocked:
  "payload_read sock n = None \<Longrightarrow> imd_recv_mdcomm sock n b1 b2 = None"
  by (auto simp: payload_read_def imd_recv_mdcomm_def Let_def split: option.splits if_splits
      dest: imd_read_multiple_length)

lemma imd_recv_mdcomm_payload:
  assumes "payload_read sock n = Some (ibs, fbs)"
  shows "(\<exists>sock'. imd_recv_mdcomm sock n b1 b2 =
           Some (\<not> short_payload n (ibs, fbs), store_bytes b1 ibs, store_bytes b2 fbs, sock'))
    \<and> length ibs \<le> 4 * n \<and> length fbs \<le> 12 * n"
proof -
  from assms obtain sock1 where r1: "imd_read_multiple sock (4 * n) = Some (ibs, sock1)"
    by (auto simp: payload_read_def split: option.splits if_splits)
  note l1 = imd_read_multiple_length [OF r1]
  show ?thesis
  proof (cases "length ibs = 4 * n")
    case False
    with assms r1 l1 have fbs: "fbs = []"
      by (simp add: payload_read_def)
    from False r1 l1 fbs show ?thesis
      by (simp add: imd_recv_mdcomm_def Let_def short_payload_def store_bytes_Nil)
  next
    case True
    with assms r1 obtain sock2 where r2: "imd_read_multiple sock1 (12 * n) = Some (fbs, sock2)"
      by (auto simp: payload_read_def split: option.splits)
    note l2 = imd_read_multiple_length [OF r2]
    from True r1 r2 l2 show ?thesis
      by (auto simp: imd_recv_mdcomm_def Let_def short_payload_def)
  qed
qed

lemma drain_trates:
  assumes "clientsocket s = Some sock" "avail sock = trate_bytes hs vs" "future sock = []"
  shows "\<exists>s'. imd_readcommand_loop h False s = Inr s'
           \<and> nstimd_def s' = nstimd_def s
           \<and> nstimd_new s' = rate_after (nstimd_def s) (nstimd_new s) vs"
  using assms
proof (induction vs arbitrary: s sock)
  case Nil
  then show ?case
    by (simp add: loop_silent trate_bytes_def rate_after_def)
next
  case (Cons v vs)
  let ?s1 = "s\<lparr>clientsocket := Some (sock\<lparr>avail := trate_bytes hs vs\<rparr>), length_hdr := sint v,
               nstimd_new := (if 0 < sint v then sint v else nstimd_def s)\<rparr>"
  from Cons.prems have av: "avail sock = be_bytes (IMDType_code IMD_TRATE) @ be_bytes v @ trate_bytes hs vs"
    by (simp add: trate_bytes_def header_bytes_fill_header)
  have "imd_readcommand_loop h False s = imd_readcommand_loop h False ?s1"
    unfolding loop_available [OF Cons.prems(1) av, of h False]
    by (simp add: imd_readcommand_switch_def)
  moreover from Cons.IH [of ?s1 "sock\<lparr>avail := trate_bytes hs vs\<rparr>"] Cons.prems(3)
  obtain s' where "imd_readcommand_loop h False ?s1 = Inr s'" "nstimd_def s' = nstimd_def s"
    "nstimd_new s' = rate_after (nstimd_def s) (if 0 < sint v then sint v else nstimd_def s) vs"
    by auto
  ultimately show ?case
    by (simp add: rate_after_def)
qed

subsection \<open>Facts about the synchronizer\<close>

lemma sync_disconnected_coordinator:
  "\<not> bConnected m \<Longrightarrow> imd_sync_nodes h (coordinator_cr n) t bc m = m"
  by (simp add: imd_sync_nodes_def coordinator_cr_def block_bc_def MASTER_def)

lemma sync_disconnected_worker:
  "\<not> bc_bConnected bc \<Longrightarrow> 1 < n \<Longrightarrow>
   imd_sync_nodes h (worker_cr n k) t bc w = w\<lparr>bConnected := False\<rparr>"
  by (simp add: imd_sync_nodes_def worker_cr_def block_bc_def MASTER_def PAR_def)

lemma coordinator_sends_bConnected: "bc_bConnected (coordinator_sends h n t m) = bConnected m"
  by (simp add: coordinator_sends_def Let_def)

lemma map_enumerate_snd: "map (\<lambda>(k, w). g w) (enumerate n ws) = map g ws"
  by (induction ws arbitrary: n) simp_all

subsection \<open>Facts about the unwrap step\<close>

lemma rvec_sub_shift_vec:
  "exact_arith h \<Longrightarrow> rvec_sub (shift_vec h box t u) (shift_vec h box t v) = rvec_sub u v"
  by (auto simp: shift_vec_def rvec_sub_def exact_arith_def split: prod.splits)

lemma Max_insert_max: "finite A \<Longrightarrow> Max (insert (max a b) A) = Max (insert b (insert a A))"
  by (cases "A = {}") (auto simp: max.commute max.left_commute)

lemma Min_insert_min: "finite A \<Longrightarrow> Min (insert (min a b) A) = Min (insert b (insert a A))"
  by (cases "A = {}") (auto simp: min.commute min.left_commute)

lemma shift_extremes_Max_Min:
  "shift_extremes xs ((lx, ly, lz), (mx, my, mz)) =
     ((Max (insert lx (fst ` set xs)), Max (insert ly ((fst \<circ> snd) ` set xs)),
       Max (insert lz ((snd \<circ> snd) ` set xs))),
      (Min (insert mx (fst ` set xs)), Min (insert my ((fst \<circ> snd) ` set xs)),
       Min (insert mz ((snd \<circ> snd) ` set xs))))"
proof (induction xs arbitrary: lx ly lz mx my mz)
  case Nil
  then show ?case by simp
next
  case (Cons s xs)
  obtain sx sy sz where s: "s = (sx, sy, sz)"
    by (cases s) auto
  have mx: "(if a > b then a else b) = max a b" and mn: "(if a < b then a else b) = min a b"
    for a b :: int
    by (auto simp: max_def min_def)
  show ?case
    unfolding s shift_extremes.simps mx mn Cons.IH
    by (simp add: Max_insert_max Min_insert_min)
qed

lemma axis_shift_extreme:
  "finite A \<Longrightarrow> A \<noteq> {} \<Longrightarrow> axis_shift (Max A) (Min A) = extreme_shift A"
proof -
  assume "finite A" "A \<noteq> {}"
  then have "Min A \<le> Max A"
    by simp
  then show ?thesis
    by (auto simp: axis_shift_def extreme_shift_def Let_def)
qed

lemma mol_shifts_set:
  assumes "start < stop" "stop \<le> length shifts"
  shows "insert (shifts ! start) (set (take (stop - Suc start) (drop (Suc start) shifts)))
         = set (take (stop - start) (drop start shifts))"
proof -
  from assms have "drop start shifts = shifts ! start # drop (Suc start) shifts"
    by (simp add: Cons_nth_drop_Suc)
  moreover from assms obtain d where "stop - start = Suc d" "stop - Suc start = d"
    by (cases "stop - start") auto
  ultimately show ?thesis
    by simp
qed

lemma mol_shift_extreme:
  assumes "start < stop" "stop \<le> length shifts"
  shows "mol_shift shifts start stop =
     (extreme_shift (fst ` set (take (stop - start) (drop start shifts))),
      extreme_shift ((fst \<circ> snd) ` set (take (stop - start) (drop start shifts))),
      extreme_shift ((snd \<circ> snd) ` set (take (stop - start) (drop start shifts))))"
proof -
  let ?xs = "take (stop - Suc start) (drop (Suc start) shifts)"
  let ?A = "set (take (stop - start) (drop start shifts))"
  obtain sx sy sz where s0: "shifts ! start = (sx, sy, sz)"
    by (cases "shifts ! start") auto
  have A: "insert (sx, sy, sz) (set ?xs) = ?A"
    using mol_shifts_set [OF assms] s0 by simp
  have img: "insert sx (fst ` set ?xs) = fst ` ?A"
    "insert sy ((fst \<circ> snd) ` set ?xs) = (fst \<circ> snd) ` ?A"
    "insert sz ((snd \<circ> snd) ` set ?xs) = (snd \<circ> snd) ` ?A"
    unfolding A [symmetric] by simp_all
  have ne: "?A \<noteq> {}"
    unfolding A [symmetric] by simp
  show ?thesis
    unfolding mol_shift_def s0 shift_extremes_Max_Min img
    using ne by (simp add: axis_shift_extreme)
qed

lemma length_remove_molshift:
  "index mls ! i \<le> index mls ! Suc i \<Longrightarrow> index mls ! Suc i \<le> length x \<Longrightarrow>
   length (remove_molshift h box shifts mls i x) = length x"
  by (simp add: remove_molshift_def shift_positions_def Let_def)

lemma nth_remove_molshift:
  assumes "index mls ! i \<le> index mls ! Suc i" "index mls ! Suc i \<le> length x" "a < length x"
  shows "remove_molshift h box shifts mls i x ! a =
     (if index mls ! i \<le> a \<and> a < index mls ! Suc i
         \<and> mol_shift shifts (index mls ! i) (index mls ! Suc i) \<noteq> (0, 0, 0)
      then shift_vec h box (mol_shift shifts (index mls ! i) (index mls ! Suc i)) (x ! a)
      else x ! a)"
proof (cases "mol_shift shifts (index mls ! i) (index mls ! Suc i) = (0, 0, 0)")
  case True
  then show ?thesis
    by (simp add: remove_molshift_def Let_def)
next
  case False
  let ?start = "index mls ! i" and ?stop = "index mls ! Suc i"
  let ?sh = "mol_shift shifts ?start ?stop"
  have eq: "remove_molshift h box shifts mls i x =
      take ?start x @ map (shift_vec h box ?sh) (take (?stop - ?start) (drop ?start x))
        @ drop (?stop - ?start) (drop ?start x)"
    using False by (simp add: remove_molshift_def Let_def shift_positions_def)
  consider (before) "a < ?start" | (inside) "?start \<le> a" "a < ?stop" | (after) "?stop \<le> a"
    by linarith
  then show ?thesis
  proof cases
    case before
    with assms show ?thesis
      unfolding eq by (simp add: nth_append)
  next
    case inside
    then have "a - ?start < ?stop - ?start"
      by linarith
    with inside assms False show ?thesis
      unfolding eq by (simp add: nth_append)
  next
    case after
    with assms have "\<not> a - ?start < ?stop - ?start" "\<not> a < ?start"
      "?stop - ?start + ?start + (a - ?start - (?stop - ?start)) = a"
      by linarith+
    with after assms show ?thesis
      unfolding eq by (simp add: nth_append)
  qed
qed

lemma mols_ok_mono:
  assumes "mols_ok mls natoms" "j \<le> k" "k \<le> nr mls"
  shows "index mls ! j \<le> index mls ! k"
proof (cases "j = k")
  case True
  then show ?thesis by simp
next
  case False
  with assms have "j < k" "k < length (index mls)" "sorted_wrt (<) (index mls)"
    by (simp_all add: mols_ok_def)
  then have "index mls ! j < index mls ! k"
    by (simp add: sorted_wrt_nth_less)
  then show ?thesis by simp
qed

lemma mols_ok_range:
  assumes "mols_ok mls natoms" "j < nr mls"
  shows "index mls ! j < index mls ! Suc j" and "index mls ! Suc j \<le> natoms"
proof -
  from assms have "j < Suc j" "Suc j < length (index mls)" "sorted_wrt (<) (index mls)"
    by (simp_all add: mols_ok_def)
  then show "index mls ! j < index mls ! Suc j"
    by (rule_tac sorted_wrt_nth_less) simp_all
  from assms have "index mls \<noteq> []" and "last (index mls) \<le> natoms"
    and len: "length (index mls) = Suc (nr mls)"
    by (auto simp: mols_ok_def)
  then have "index mls ! nr mls \<le> natoms"
    by (simp add: last_conv_nth)
  moreover have "index mls ! Suc j \<le> index mls ! nr mls"
    using assms by (intro mols_ok_mono [OF assms(1)]) simp_all
  ultimately show "index mls ! Suc j \<le> natoms"
    by simp
qed

lemma mols_ok_disjoint:
  assumes "mols_ok mls natoms" "i < nr mls" "j < nr mls" "j \<noteq> i"
    and "index mls ! i \<le> a" "a < index mls ! Suc i"
  shows "\<not> (index mls ! j \<le> a \<and> a < index mls ! Suc j)"
proof (cases "j < i")
  case True
  then have "index mls ! Suc j \<le> index mls ! i"
    using assms by (intro mols_ok_mono [OF assms(1)]) simp_all
  with assms show ?thesis by simp
next
  case False
  with assms have "index mls ! Suc i \<le> index mls ! j"
    by (intro mols_ok_mono [OF assms(1)]) simp_all
  with assms show ?thesis by simp
qed

lemma fold_remove_molshift:
  assumes "mols_ok mls (length x)" "distinct js" "\<forall>j\<in>set js. j < nr mls" "i < nr mls"
    and "index mls ! i \<le> a" "a < index mls ! Suc i"
  shows "length (fold (remove_molshift h box shifts mls) js x) = length x
     \<and> fold (remove_molshift h box shifts mls) js x ! a =
         (if i \<in> set js \<and> mol_shift shifts (index mls ! i) (index mls ! Suc i) \<noteq> (0, 0, 0)
          then shift_vec h box (mol_shift shifts (index mls ! i) (index mls ! Suc i)) (x ! a)
          else x ! a)"
  using assms(1,2,3)
proof (induction js arbitrary: x)
  case Nil
  then show ?case by simp
next
  case (Cons j js)
  let ?x1 = "remove_molshift h box shifts mls j x"
  from Cons.prems have j: "j < nr mls" and dist: "distinct js" "j \<notin> set js"
    and rest: "\<forall>j\<in>set js. j < nr mls"
    by simp_all
  note rj = mols_ok_range [OF Cons.prems(1) j]
  note ri = mols_ok_range [OF Cons.prems(1) assms(4)]
  have len1: "length ?x1 = length x"
    using rj by (simp add: length_remove_molshift)
  have a: "a < length x"
    using assms(6) ri by simp
  have nth1: "?x1 ! a =
      (if index mls ! j \<le> a \<and> a < index mls ! Suc j
          \<and> mol_shift shifts (index mls ! j) (index mls ! Suc j) \<noteq> (0, 0, 0)
       then shift_vec h box (mol_shift shifts (index mls ! j) (index mls ! Suc j)) (x ! a)
       else x ! a)"
    using rj a by (intro nth_remove_molshift) simp_all
  have ok1: "mols_ok mls (length ?x1)"
    using Cons.prems(1) len1 by simp
  note IH = Cons.IH [OF ok1 dist(1) rest]
  show ?case
  proof (cases "j = i")
    case True
    with dist have "i \<notin> set js" by simp
    with IH True nth1 assms(5,6) len1 show ?thesis by simp
  next
    case False
    from mols_ok_disjoint [OF Cons.prems(1) assms(4) j False assms(5,6)] nth1
    have "?x1 ! a = x ! a" by auto
    with IH False len1 show ?thesis by simp
  qed
qed

section \<open>Claims\<close>

text \<open>
  C1 (amended). Take a force-data message whose header declares \<open>N\<close> atoms, \<open>N\<close> in range.
  If its payload comes up short (the reads return with fewer than \<open>N\<close> indices, or after
  them fewer than \<open>N\<close> force triples, because the peer hung up or a read failed), command
  processing disconnects the client: the loop returns with \<open>bConnected\<close> false, no client
  socket and the negotiated interval back at its default. The receive state is written in
  place and is not restored: \<open>vmd_nforces\<close> is \<open>N\<close>, and the two receive arrays are the
  arrays reallocated for \<open>N\<close> atoms with the bytes that came stored at their front. The
  applied batch (\<open>nforces\<close>, \<open>f_ind\<close>, \<open>f\<close>) is as it was before the message. If instead
  the peer stays connected and sends nothing more, the payload read never returns: there is
  no disconnect, command processing blocks.
\<close>

theorem C1_short_force_message:
  assumes "clientsocket s = Some sock"
    and "avail sock = header_bytes hs (fill_header hs IMD_MDCOMM len) @ rest"
    and "count_ok (sint len)"
  shows "(payload_read (sock\<lparr>avail := rest\<rparr>) (nat (sint len)) = None
            \<longrightarrow> imd_readcommand_loop h p s = Inl Blocked)
       \<and> (\<forall>ibs fbs.
             payload_read (sock\<lparr>avail := rest\<rparr>) (nat (sint len)) = Some (ibs, fbs)
             \<and> short_payload (nat (sint len)) (ibs, fbs)
            \<longrightarrow> (\<exists>s'. imd_readcommand_loop h p s = Inr s'
                   \<and> \<not> bConnected s' \<and> clientsocket s' = None \<and> nstimd_new s' = nstimd_def s
                   \<and> vmd_nforces s' = sint len
                   \<and> vmd_f_ind s' = store_bytes (srenew (vmd_f_ind s) (4 * nat (sint len)) 0) ibs
                   \<and> vmd_forces s' = store_bytes (srenew (vmd_forces s) (12 * nat (sint len)) 0) fbs
                   \<and> take (length ibs) (vmd_f_ind s') = ibs
                   \<and> take (length fbs) (vmd_forces s') = fbs
                   \<and> length (vmd_f_ind s') = 4 * nat (sint len)
                   \<and> length (vmd_forces s') = 12 * nat (sint len)
                   \<and> nforces s' = nforces s \<and> f_ind s' = f_ind s \<and> f_md s' = f_md s))"
proof -
  let ?n = "nat (sint len)"
  let ?sock = "sock\<lparr>avail := rest\<rparr>"
  let ?s1 = "s\<lparr>clientsocket := Some ?sock, length_hdr := sint len\<rparr>"
  let ?b1 = "srenew (vmd_f_ind s) (4 * ?n) 0" and ?b2 = "srenew (vmd_forces s) (12 * ?n) 0"
  have av: "avail sock = be_bytes (IMDType_code IMD_MDCOMM) @ be_bytes len @ rest"
    using assms(2) by (simp add: header_bytes_fill_header)
  note unroll = loop_available [OF assms(1) av, of h p]
  have blocked: "imd_readcommand_loop h p s = Inl Blocked" if "payload_read ?sock ?n = None"
  proof -
    from imd_recv_mdcomm_blocked [OF that, of ?b1 ?b2] assms(3)
    have "imd_read_vmd_Forces ?s1 = Inl Blocked"
      by (simp add: imd_read_vmd_Forces_def imd_prepare_vmd_Forces_def Let_def)
    then show ?thesis
      unfolding unroll by (simp add: imd_readcommand_switch_def)
  qed
  have short: "\<exists>s'. imd_readcommand_loop h p s = Inr s'
                   \<and> \<not> bConnected s' \<and> clientsocket s' = None \<and> nstimd_new s' = nstimd_def s
                   \<and> vmd_nforces s' = sint len
                   \<and> vmd_f_ind s' = store_bytes ?b1 ibs
                   \<and> vmd_forces s' = store_bytes ?b2 fbs
                   \<and> take (length ibs) (vmd_f_ind s') = ibs
                   \<and> take (length fbs) (vmd_forces s') = fbs
                   \<and> length (vmd_f_ind s') = 4 * ?n
                   \<and> length (vmd_forces s') = 12 * ?n
                   \<and> nforces s' = nforces s \<and> f_ind s' = f_ind s \<and> f_md s' = f_md s"
    if got: "payload_read ?sock ?n = Some (ibs, fbs)" and sh: "short_payload ?n (ibs, fbs)"
    for ibs fbs
  proof -
    note pl = imd_recv_mdcomm_payload [OF got, of ?b1 ?b2]
    from pl sh obtain sock' where
      rd: "imd_recv_mdcomm ?sock ?n ?b1 ?b2 = Some (False, store_bytes ?b1 ibs, store_bytes ?b2 fbs, sock')"
      by auto
    from pl have le: "length ibs \<le> 4 * ?n" "length fbs \<le> 12 * ?n"
      by simp_all
    have "imd_read_vmd_Forces ?s1 =
        Inr (imd_fatal (?s1\<lparr>vmd_nforces := sint len, vmd_f_ind := store_bytes ?b1 ibs,
                              vmd_forces := store_bytes ?b2 fbs, clientsocket := Some sock'\<rparr>))"
      using assms(3) rd
      by (simp add: imd_read_vmd_Forces_def imd_prepare_vmd_Forces_def Let_def)
    then show ?thesis
      unfolding unroll using le
      by (simp add: imd_readcommand_switch_def imd_fatal_def imd_disconnect_def loop_no_client
          take_store_bytes length_store_bytes length_srenew)
  qed
  from blocked short show ?thesis
    by blast
qed

text \<open>
  C1, witness: the client that announces two forces, sends three bytes and hangs up is
  disconnected and the index array begins with the three bytes; the client that sends the
  same and then stays silent blocks command processing.
\<close>

theorem C1_short_force_message_witness:
  "(\<exists>s'. imd_readcommand_loop example_host False (connected_session c1_client) = Inr s'
           \<and> \<not> bConnected s' \<and> clientsocket s' = None \<and> vmd_nforces s' = 2
           \<and> take 3 (vmd_f_ind s') = [1, 2, 3] \<and> nforces s' = 0)
   \<and> imd_readcommand_loop example_host False (connected_session (c1_client\<lparr>future := []\<rparr>))
       = Inl Blocked"
proof -
  have 1: "clientsocket (connected_session c1_client) = Some c1_client"
    by (simp add: connected_session_def)
  have 2: "avail c1_client = header_bytes example_host (fill_header example_host IMD_MDCOMM 2) @ [1, 2, 3]"
    by (simp add: c1_client_def)
  have 3: "count_ok (sint (2 :: int32_t))"
    by (simp add: count_ok_def)
  have 4: "payload_read (c1_client\<lparr>avail := [1, 2, 3]\<rparr>) (nat (sint (2 :: int32_t))) = Some ([1, 2, 3], [])"
    by code_simp
  have 5: "short_payload (nat (sint (2 :: int32_t))) ([1, 2, 3], [])"
    by (simp add: short_payload_def)
  have 6: "nforces (connected_session c1_client) = 0"
    by (simp add: connected_session_def prepareSession_def IMD_zero_def)
  from C1_short_force_message [OF 1 2 3, of example_host False] 4 5
  obtain s' where "imd_readcommand_loop example_host False (connected_session c1_client) = Inr s'"
    "\<not> bConnected s'" "clientsocket s' = None" "vmd_nforces s' = sint (2 :: int32_t)"
    "take (length [1, 2, 3 :: byte]) (vmd_f_ind s') = [1, 2, 3]"
    "nforces s' = nforces (connected_session c1_client)"
    by blast
  with 6 have a: "\<exists>s'. imd_readcommand_loop example_host False (connected_session c1_client) = Inr s'
           \<and> \<not> bConnected s' \<and> clientsocket s' = None \<and> vmd_nforces s' = 2
           \<and> take 3 (vmd_f_ind s') = [1, 2, 3] \<and> nforces s' = 0"
    by (auto simp: numeral_3_eq_3)
  have s1: "clientsocket (connected_session (c1_client\<lparr>future := []\<rparr>)) = Some (c1_client\<lparr>future := []\<rparr>)"
    by (simp add: connected_session_def)
  have s2: "avail (c1_client\<lparr>future := []\<rparr>)
      = header_bytes example_host (fill_header example_host IMD_MDCOMM 2) @ [1, 2, 3]"
    by (simp add: c1_client_def)
  have s4: "payload_read (c1_client\<lparr>future := [], avail := [1, 2, 3]\<rparr>) (nat (sint (2 :: int32_t))) = None"
    by code_simp
  from C1_short_force_message [OF s1 s2 3, of example_host False] s4
  have b: "imd_readcommand_loop example_host False (connected_session (c1_client\<lparr>future := []\<rparr>))
       = Inl Blocked"
    by blast
  from a b show ?thesis
    by (rule conjI)
qed

text \<open>
  C1, counterexample to the claim as stated: before the short message the received batch is
  empty (count 0, no index bytes); after command processing the client is disconnected and
  the batch is not what it was: the count is 2 and the index array begins with the three
  bytes that came.
\<close>

theorem C1_short_message_changes_batch:
  "vmd_nforces (connected_session c1_client) = 0
   \<and> vmd_f_ind (connected_session c1_client) = []
   \<and> map_sum id bConnected (imd_readcommand example_host (connected_session c1_client)) = Inr False
   \<and> map_sum id vmd_nforces (imd_readcommand example_host (connected_session c1_client)) = Inr 2
   \<and> map_sum id (\<lambda>s. take 3 (vmd_f_ind s)) (imd_readcommand example_host (connected_session c1_client))
       = Inr [1, 2, 3]"
  by code_simp

text \<open>
  C2 (the code at the failing inputs). The claim: when the first message after the handshake
  is not a go command, or none comes within the wait, \<open>bConnected\<close> stays false and the
  client socket is null. The code: in both cases \<open>imd_tryconnect\<close> returns \<^verbatim>\<open>TRUE\<close>
  with the client socket null and \<open>bConnected\<close> set.
\<close>

theorem C2_tryconnect_without_go:
  "map_option (\<lambda>(r, s). (r, bConnected s, clientsocket s)) (imd_tryconnect example_host c2_wrong_first)
     = Some (True, True, None)
   \<and> map_option (\<lambda>(r, s). (r, bConnected s, clientsocket s)) (imd_tryconnect example_host c2_no_message)
     = Some (True, True, None)"
  by code_simp

text \<open>
  C3. For every message kind of the protocol and every 32-bit length, the eight header bytes
  produced by \<open>fill_header\<close> on a sender of either byte order are decoded by a
  receiver of either byte order (\<open>swap_header\<close> on the received struct, and the whole
  of \<open>imd_recv_header\<close> reading them from the socket) to exactly the kind and the length
  that were encoded; the bytes that follow the header stay in the socket.
\<close>

theorem C3_header_roundtrip:
  "swap_header hr (header_of_bytes hr (header_bytes hs (fill_header hs kind len)))
     = \<lparr>type_h = IMDType_code kind, length_h = len\<rparr>
   \<and> imd_recv_header hr (sock\<lparr>avail := header_bytes hs (fill_header hs kind len) @ rest\<rparr>) len0
     = Some (IMDType_code kind, sint len, sock\<lparr>avail := rest\<rparr>)"
  by (simp add: header_bytes_fill_header swap_header_of_wire imd_recv_header_avail)

text \<open>
  C4. When the group synchronizer runs while the coordinator's connected flag is false, the
  coordinator's state is unchanged and every worker's state is unchanged but for its
  connected flag, which is false afterwards; in particular the update interval, the applied
  batch (\<open>nforces\<close>, \<open>f_ind\<close>, \<open>f\<close>) and the new-forces flag stay as they were on
  every process, whatever they were.
\<close>

theorem C4_sync_while_disconnected:
  assumes "\<not> bConnected m"
  shows "imd_sync_group h t m ws = (m, map (\<lambda>w. w\<lparr>bConnected := False\<rparr>) ws)
     \<and> list_all (\<lambda>w. \<not> bConnected w) (snd (imd_sync_group h t m ws))
     \<and> force_state (fst (imd_sync_group h t m ws)) = force_state m
     \<and> map force_state (snd (imd_sync_group h t m ws)) = map force_state ws"
proof -
  have "map (\<lambda>(k, w). imd_sync_nodes h (worker_cr (Suc (length ws)) k) t
               (coordinator_sends h (Suc (length ws)) t m) w) (enumerate 0 ws)
        = map (\<lambda>w. w\<lparr>bConnected := False\<rparr>) ws"
  proof (cases ws)
    case Nil
    then show ?thesis by simp
  next
    case (Cons w ws')
    then have par: "1 < Suc (length ws)"
      by simp
    have "map (\<lambda>(k, w). imd_sync_nodes h (worker_cr (Suc (length ws)) k) t
               (coordinator_sends h (Suc (length ws)) t m) w) (enumerate 0 ws)
        = map (\<lambda>(k, w). w\<lparr>bConnected := False\<rparr>) (enumerate 0 ws)"
      using assms par
      by (intro map_cong refl) (auto simp: sync_disconnected_worker coordinator_sends_bConnected)
    also have "\<dots> = map (\<lambda>w. w\<lparr>bConnected := False\<rparr>) ws"
      by (rule map_enumerate_snd)
    finally show ?thesis .
  qed
  with assms have eq: "imd_sync_group h t m ws = (m, map (\<lambda>w. w\<lparr>bConnected := False\<rparr>) ws)"
    by (simp add: imd_sync_group_def Let_def sync_disconnected_coordinator)
  show ?thesis
    unfolding eq by (simp add: list_all_iff force_state_def comp_def)
qed

text \<open>C4, witness: a coordinator without a client and a worker that holds one applied force.\<close>

theorem C4_sync_while_disconnected_witness:
  "imd_sync_group example_host 0 c4_coordinator [c4_worker]
     = (c4_coordinator, [c4_worker\<lparr>bConnected := False\<rparr>])
   \<and> map force_state (snd (imd_sync_group example_host 0 c4_coordinator [c4_worker]))
     = [(5, 1, [2], [(1, 0, 0)], True)]"
proof -
  have 1: "\<not> bConnected c4_coordinator"
    by (simp add: c4_coordinator_def prepareSession_def)
  have 2: "force_state c4_worker = (5, 1, [2], [(1, 0, 0)], True)"
    by (simp add: force_state_def c4_worker_def)
  note t = C4_sync_while_disconnected [OF 1, of example_host 0 "[c4_worker]"]
  from t have "imd_sync_group example_host 0 c4_coordinator [c4_worker]
          = (c4_coordinator, map (\<lambda>w. w\<lparr>bConnected := False\<rparr>) [c4_worker])"
    by (rule conjunct1)
  then have a: "imd_sync_group example_host 0 c4_coordinator [c4_worker]
          = (c4_coordinator, [c4_worker\<lparr>bConnected := False\<rparr>])"
    by simp
  from t have "map force_state (snd (imd_sync_group example_host 0 c4_coordinator [c4_worker]))
          = map force_state [c4_worker]"
    by blast
  with 2 have b: "map force_state (snd (imd_sync_group example_host 0 c4_coordinator [c4_worker]))
          = [(5, 1, [2], [(1, 0, 0)], True)]"
    by simp
  from a b show ?thesis
    by (rule conjI)
qed

text \<open>
  C5 (the code at the failing input). The claim: with connection and force injection active
  and no new forces received, the signed count the coordinator computes and broadcasts is
  negative. The code: in a connected session with pulling enabled whose client has sent no
  forces (the received batch is empty) the count is \<open>0 * -1 = 0\<close>, which is not negative,
  so the test \<^verbatim>\<open>new_nforces >= 0\<close> sends every process into the resize path.
\<close>

theorem C5_count_for_empty_batch:
  "bConnected (connected_session silent_socket)
   \<and> bForceActivated (connected_session silent_socket)
   \<and> \<not> bNewForces (connected_session silent_socket)
   \<and> new_nforces_local (coordinator_cr 2) (connected_session silent_socket) = 0
   \<and> bc_new_nforces (coordinator_sends example_host 2 0 (connected_session silent_socket)) = 0
   \<and> \<not> bc_new_nforces (coordinator_sends example_host 2 0 (connected_session silent_socket)) < 0"
  by code_simp

text \<open>
  C6. For every sequence of set-rate messages waiting on the client socket, the command
  dispatcher returns, and the negotiated update interval is then decided by the last
  message of the sequence: a value \<open>V > 0\<close> makes it exactly \<open>V\<close>, the value 0 makes it
  exactly the configured default. (Every message of a sequence is the last one of a shorter
  sequence.)
\<close>

theorem C6_set_rate_sequence:
  assumes "clientsocket s = Some sock"
    and "avail sock = trate_bytes hs (vs @ [v])"
    and "future sock = []"
  shows "\<exists>s'. imd_readcommand h s = Inr s'
           \<and> (0 < sint v \<longrightarrow> nstimd_new s' = sint v)
           \<and> (v = 0 \<longrightarrow> nstimd_new s' = nstimd_def s)
           \<and> nstimd_def s' = nstimd_def s"
proof -
  from drain_trates [OF assms] obtain s' where
    "imd_readcommand_loop h False s = Inr s'" "nstimd_def s' = nstimd_def s"
    "nstimd_new s' = rate_after (nstimd_def s) (nstimd_new s) (vs @ [v])"
    by auto
  then show ?thesis
    by (auto simp: imd_readcommand_def rate_after_def)
qed

text \<open>C6, witness: the rates 5, 0, 3, 0 in a session whose default interval is 10.\<close>

theorem C6_set_rate_sequence_witness:
  "\<exists>s'. imd_readcommand example_host
            (connected_session (silent_socket\<lparr>avail := trate_bytes example_host ([5, 0, 3] @ [0])\<rparr>))
          = Inr s'
        \<and> nstimd_new s' = 10"
proof -
  let ?sock = "silent_socket\<lparr>avail := trate_bytes example_host ([5, 0, 3] @ [0])\<rparr>"
  have 1: "clientsocket (connected_session ?sock) = Some ?sock"
    by (simp add: connected_session_def)
  have 2: "avail ?sock = trate_bytes example_host ([5, 0, 3] @ [0])"
    by simp
  have 3: "future ?sock = []"
    by (simp add: silent_socket_def)
  have 4: "nstimd_def (connected_session ?sock) = 10"
    by (simp add: connected_session_def prepareSession_def)
  from C6_set_rate_sequence [OF 1 2 3, of example_host] 4
  show ?thesis by auto
qed

text \<open>
  C7. Every call of \<open>imd_disconnect\<close> leaves the negotiated update interval at the
  configured default, the session not connected (\<open>bConnected\<close> false, no client socket),
  and the log with nothing left in its buffer, all that was buffered having been written.
  \<open>imd_fatal\<close>, the path of every I/O error, does exactly this, and so does the dispatcher
  for a disconnect message and for the I/O-error kind.
\<close>

theorem C7_disconnect:
  "nstimd_new (imd_disconnect s) = nstimd_def s
   \<and> nstimd_def (imd_disconnect s) = nstimd_def s
   \<and> \<not> bConnected (imd_disconnect s)
   \<and> clientsocket (imd_disconnect s) = None
   \<and> map_option buffered (outf (imd_disconnect s)) = map_option (\<lambda>fp. []) (outf s)
   \<and> map_option written (outf (imd_disconnect s)) = map_option (\<lambda>fp. written fp @ buffered fp) (outf s)
   \<and> imd_fatal s = imd_disconnect s
   \<and> imd_readcommand_switch (IMDType_code IMD_DISCONNECT) p s = Inr (p, imd_disconnect s)
   \<and> imd_readcommand_switch (IMDType_code IMD_IOERROR) p s = Inr (p, imd_disconnect s)"
  by (simp add: imd_disconnect_def imd_fatal_def imd_readcommand_switch_def fflush_def
      option.map_comp comp_def)

text \<open>
  C8 (amended). For every molecule \<open>i\<close> of a well-formed molecule block, the unwrap step
  applies at most one whole-molecule translation, with one and the same integer shift
  vector for every atom of the molecule. Along each axis that shift is the minimum of the
  atoms' shifts if the minimum is positive, the maximum if the maximum is negative, and zero
  otherwise. With a zero shift vector the atom is left as it is; otherwise each coordinate
  becomes the floating-point value of \<^verbatim>\<open>x - t*box\<close> as \<^verbatim>\<open>shift_positions\<close> writes it
  (with the terms of the other axes in a triclinic box). The difference of the positions of
  two atoms of the molecule is unchanged when the shift vector is zero and when the host's
  arithmetic is exact; with floating-point rounding each coordinate is rounded on its own,
  and the differences are preserved only up to that rounding.
\<close>

theorem C8_unwrap_is_uniform_translation:
  assumes "mols_ok (mols s) (length (xa s))" and "length (xa_shifts s) = length (xa s)"
    and "i < nr (mols s)"
    and "a \<in> set (mol_atoms (mols s) i)" and "b \<in> set (mol_atoms (mols s) i)"
  shows "mol_shift (xa_shifts s) (index (mols s) ! i) (index (mols s) ! Suc i) =
           (extreme_shift (fst ` (\<lambda>k. xa_shifts s ! k) ` set (mol_atoms (mols s) i)),
            extreme_shift ((fst \<circ> snd) ` (\<lambda>k. xa_shifts s ! k) ` set (mol_atoms (mols s) i)),
            extreme_shift ((snd \<circ> snd) ` (\<lambda>k. xa_shifts s ! k) ` set (mol_atoms (mols s) i)))
     \<and> (case (box, mol_shift (xa_shifts s) (index (mols s) ! i) (index (mols s) ! Suc i), xa s ! a) of
          (((bxx, bxy, bxz), (byx, byy, byz), (bzx, bzy, bzz)), (tx, ty, tz), (x, y, z)) \<Rightarrow>
            xa (imd_remove_molshifts h s box) ! a =
              (if tx = 0 \<and> ty = 0 \<and> tz = 0 then (x, y, z)
               else if TRICLINIC h box
               then (f_sub h (f_sub h (f_sub h x (f_mul h (f_of_int h tx) bxx))
                                      (f_mul h (f_of_int h ty) byx))
                             (f_mul h (f_of_int h tz) bzx),
                     f_sub h (f_sub h y (f_mul h (f_of_int h ty) byy)) (f_mul h (f_of_int h tz) bzy),
                     f_sub h z (f_mul h (f_of_int h tz) bzz))
               else (f_sub h x (f_mul h (f_of_int h tx) bxx),
                     f_sub h y (f_mul h (f_of_int h ty) byy),
                     f_sub h z (f_mul h (f_of_int h tz) bzz))))
     \<and> (mol_shift (xa_shifts s) (index (mols s) ! i) (index (mols s) ! Suc i) = (0, 0, 0)
          \<longrightarrow> xa (imd_remove_molshifts h s box) ! a = xa s ! a
            \<and> rvec_sub (xa (imd_remove_molshifts h s box) ! a) (xa (imd_remove_molshifts h s box) ! b)
                = rvec_sub (xa s ! a) (xa s ! b))
     \<and> (exact_arith h
          \<longrightarrow> rvec_sub (xa (imd_remove_molshifts h s box) ! a) (xa (imd_remove_molshifts h s box) ! b)
                = rvec_sub (xa s ! a) (xa s ! b))"
proof -
  let ?start = "index (mols s) ! i" and ?stop = "index (mols s) ! Suc i"
  let ?sh = "mol_shift (xa_shifts s) ?start ?stop"
  let ?xa' = "xa (imd_remove_molshifts h s box)"
  note r = mols_ok_range [OF assms(1,3)]
  have pos: "?xa' ! c = (if ?sh \<noteq> (0, 0, 0) then shift_vec h box ?sh (xa s ! c) else xa s ! c)"
    if "c \<in> set (mol_atoms (mols s) i)" for c
  proof -
    from that have c: "?start \<le> c" "c < ?stop"
      by (simp_all add: mol_atoms_def)
    from fold_remove_molshift [OF assms(1) _ _ assms(3) c, of "[0..<nr (mols s)]" h box "xa_shifts s"]
      assms(3)
    show ?thesis
      by (simp add: imd_remove_molshifts_def)
  qed
  have "set (take (?stop - ?start) (drop ?start (xa_shifts s)))
      = (\<lambda>k. xa_shifts s ! k) ` set (mol_atoms (mols s) i)"
  proof -
    have "take (?stop - ?start) (drop ?start (xa_shifts s)) = map (\<lambda>k. xa_shifts s ! k) [?start..<?stop]"
      using r assms(2) by (intro nth_equalityI) simp_all
    then show ?thesis
      by (simp add: mol_atoms_def)
  qed
  with mol_shift_extreme [OF r(1), of "xa_shifts s"] r(2) assms(2)
  have ext: "?sh =
       (extreme_shift (fst ` (\<lambda>k. xa_shifts s ! k) ` set (mol_atoms (mols s) i)),
        extreme_shift ((fst \<circ> snd) ` (\<lambda>k. xa_shifts s ! k) ` set (mol_atoms (mols s) i)),
        extreme_shift ((snd \<circ> snd) ` (\<lambda>k. xa_shifts s ! k) ` set (mol_atoms (mols s) i)))"
    by simp
  have formula: "case (box, ?sh, xa s ! a) of
          (((bxx, bxy, bxz), (byx, byy, byz), (bzx, bzy, bzz)), (tx, ty, tz), (x, y, z)) \<Rightarrow>
            ?xa' ! a =
              (if tx = 0 \<and> ty = 0 \<and> tz = 0 then (x, y, z)
               else if TRICLINIC h box
               then (f_sub h (f_sub h (f_sub h x (f_mul h (f_of_int h tx) bxx))
                                      (f_mul h (f_of_int h ty) byx))
                             (f_mul h (f_of_int h tz) bzx),
                     f_sub h (f_sub h y (f_mul h (f_of_int h ty) byy)) (f_mul h (f_of_int h tz) bzy),
                     f_sub h z (f_mul h (f_of_int h tz) bzz))
               else (f_sub h x (f_mul h (f_of_int h tx) bxx),
                     f_sub h y (f_mul h (f_of_int h ty) byy),
                     f_sub h z (f_mul h (f_of_int h tz) bzz)))"
    unfolding pos [OF assms(4)]
    by (auto simp: shift_vec_def split: prod.splits)
  have zero: "?xa' ! a = xa s ! a
            \<and> rvec_sub (?xa' ! a) (?xa' ! b) = rvec_sub (xa s ! a) (xa s ! b)"
    if "?sh = (0, 0, 0)"
    using that by (simp add: pos [OF assms(4)] pos [OF assms(5)])
  have exact: "rvec_sub (?xa' ! a) (?xa' ! b) = rvec_sub (xa s ! a) (xa s ! b)"
    if "exact_arith h"
    using that by (simp add: pos [OF assms(4)] pos [OF assms(5)] rvec_sub_shift_vec)
  from ext formula zero exact show ?thesis
    by blast
qed

text \<open>
  C8, witness, on the host with exact arithmetic: the molecule of atoms 0 and 1, whose
  shifts along XX are 1 and 2, is moved back by one box along XX and by nothing along YY
  and ZZ (the ZZ shifts are 0 and -1); the difference of the two positions stays. The
  molecule of atom 2 has the shift vector zero and stays where it is.
\<close>

theorem C8_unwrap_is_uniform_translation_witness:
  "mol_shift (xa_shifts c8_session) 0 2 = (1, 0, 0)
   \<and> xa (imd_remove_molshifts exact_host c8_session c8_box) ! 0 = (1 / 2, 1 / 2, 1 / 2)
   \<and> xa (imd_remove_molshifts exact_host c8_session c8_box) ! 1 = (7 / 2, 1, 1 / 2)
   \<and> rvec_sub (xa (imd_remove_molshifts exact_host c8_session c8_box) ! 0)
               (xa (imd_remove_molshifts exact_host c8_session c8_box) ! 1)
       = rvec_sub (7 / 2, 1 / 2, 1 / 2) (13 / 2, 1, 1 / 2)
   \<and> mol_shift (xa_shifts c8_session) 2 3 = (0, 0, 0)
   \<and> xa (imd_remove_molshifts exact_host c8_session c8_box) ! 2 = (1, 1, 1)"
proof -
  have 1: "mols_ok (mols c8_session) (length (xa c8_session))"
    by (simp add: mols_ok_def c8_session_def)
  have 2: "length (xa_shifts c8_session) = length (xa c8_session)"
    by (simp add: c8_session_def)
  have 3: "0 < nr (mols c8_session)"
    by (simp add: c8_session_def)
  have idx: "index (mols c8_session) ! 0 = 0" "index (mols c8_session) ! Suc 0 = 2"
    by (simp_all add: c8_session_def)
  have 4: "0 \<in> set (mol_atoms (mols c8_session) 0)" and 5: "1 \<in> set (mol_atoms (mols c8_session) 0)"
    by (simp_all add: mol_atoms_def idx)
  have sh: "mol_shift (xa_shifts c8_session) 0 2 = (1, 0, 0)"
    by (simp add: mol_shift_def c8_session_def axis_shift_def numeral_2_eq_2)
  have x: "xa c8_session ! 0 = (7 / 2, 1 / 2, 1 / 2)" "xa c8_session ! 1 = (13 / 2, 1, 1 / 2)"
    by (simp_all add: c8_session_def)
  have ex: "exact_arith exact_host"
    by (simp add: exact_arith_def exact_host_def)
  have ops: "f_of_int exact_host = real_of_int" "f_mul exact_host = (\<lambda>x y. x * y)"
    "f_sub exact_host = (\<lambda>x y. x - y)" "\<not> TRICLINIC exact_host c8_box"
    by (simp_all add: exact_host_def example_host_def)
  let ?xa' = "xa (imd_remove_molshifts exact_host c8_session c8_box)"
  note t0 = C8_unwrap_is_uniform_translation [OF 1 2 3 4 5, of exact_host c8_box, unfolded idx sh x]
  note t1 = C8_unwrap_is_uniform_translation [OF 1 2 3 5 4, of exact_host c8_box, unfolded idx sh x]
  from t0 have p0: "?xa' ! 0 = (1 / 2, 1 / 2, 1 / 2)"
    by (simp add: c8_box_def ops)
  from t1 have p1: "?xa' ! 1 = (7 / 2, 1, 1 / 2)"
    by (simp add: c8_box_def ops)
  from t0 ex have g: "rvec_sub (?xa' ! 0) (?xa' ! 1) = rvec_sub (7 / 2, 1 / 2, 1 / 2) (13 / 2, 1, 1 / 2)"
    by blast
  have 6: "1 < nr (mols c8_session)"
    by (simp add: c8_session_def)
  have idx2: "index (mols c8_session) ! 1 = 2" "index (mols c8_session) ! Suc 1 = 3"
    by (simp_all add: c8_session_def)
  have 7: "2 \<in> set (mol_atoms (mols c8_session) 1)"
    by (simp add: mol_atoms_def c8_session_def)
  have sh2: "mol_shift (xa_shifts c8_session) 2 3 = (0, 0, 0)"
    by code_simp
  have x2: "xa c8_session ! 2 = (1, 1, 1)"
    by (simp add: c8_session_def)
  note t2 = C8_unwrap_is_uniform_translation [OF 1 2 6 7 7, of exact_host c8_box, unfolded idx2 sh2 x2]
  from t2 have p2: "?xa' ! 2 = (1, 1, 1)"
    by blast
  from sh p0 p1 g sh2 p2 show ?thesis
    by blast
qed

text \<open>
  C8, counterexample to the claim as stated, on the single-precision host: two atoms of one
  molecule at the single-precision numbers nearest to 0.1 and 0.2 along XX, both with the
  shift -1, in a cubic box of edge 3. Both get the same shift vector, yet the difference of
  their XX coordinates is 13421773 / 2^27 before the unwrap and 13421792 / 2^27 after it.
\<close>

theorem C8_rounding_changes_geometry:
  "mol_shift (xa_shifts c8_float_session) 0 2 = (- 1, 0, 0)
   \<and> rvec_sub (xa c8_float_session ! 1) (xa c8_float_session ! 0) = (13421773 / 2 ^ 27, 0, 0)
   \<and> rvec_sub (xa (imd_remove_molshifts example_host c8_float_session c8_box) ! 1)
               (xa (imd_remove_molshifts example_host c8_float_session c8_box) ! 0)
       = (13421792 / 2 ^ 27, 0, 0)"
  by code_simp

text \<open>
  C9 (amended). Let the client socket hold a sequence of whole messages and let the peer
  send nothing more while it stays connected. Then the drain loop of \<open>imd_readcommand\<close>
  returns exactly when the sequence does not leave the session paused: not paused, it
  stops as soon as no more bytes are immediately available; once a pause message was seen
  it goes on reading even when nothing is immediately available, so it returns only after
  an unpause message (and then an empty socket) or after the connection was dropped by a
  disconnect or an unexpected message. When the messages leave the session paused, the
  loop waits in a read that never returns.
\<close>

theorem C9_drain_returns_iff_not_left_paused:
  assumes "clientsocket s = Some sock"
    and "avail sock = concat (map wire_bytes ms)"
    and "future sock = []"
    and "list_all whole_msg ms"
  shows "((\<exists>s'. imd_readcommand h s = Inr s') \<longleftrightarrow> \<not> leaves_paused False ms)
       \<and> (imd_readcommand h s = Inl Blocked \<longleftrightarrow> leaves_paused False ms)"
  using drain_whole_messages [OF assms, of h False]
  by (simp add: imd_readcommand_def)

text \<open>C9, witness: pause, set-rate 5, pause (the unpause): the loop returns.\<close>

theorem C9_drain_returns_iff_not_left_paused_witness:
  "\<exists>s'. imd_readcommand example_host
            (connected_session (silent_socket
               \<lparr>avail := concat (map wire_bytes
                   [bare_msg IMD_PAUSE 0, bare_msg IMD_TRATE 5, bare_msg IMD_PAUSE 0])\<rparr>))
          = Inr s'"
proof -
  let ?ms = "[bare_msg IMD_PAUSE 0, bare_msg IMD_TRATE 5, bare_msg IMD_PAUSE 0]"
  let ?sock = "silent_socket\<lparr>avail := concat (map wire_bytes ?ms)\<rparr>"
  have 1: "clientsocket (connected_session ?sock) = Some ?sock"
    by (simp add: connected_session_def)
  have 2: "avail ?sock = concat (map wire_bytes ?ms)"
    by simp
  have 3: "future ?sock = []"
    by (simp add: silent_socket_def)
  have 4: "list_all whole_msg ?ms"
    by (simp add: whole_msg_def bare_msg_def)
  have 5: "\<not> leaves_paused False ?ms"
    by (simp add: bare_msg_def)
  from C9_drain_returns_iff_not_left_paused [OF 1 2 3 4, of example_host] 5
  show ?thesis by blast
qed

text \<open>
  C9, counterexample to the claim as stated: one pause message is waiting and the peer then
  stays silent. The loop does not stop when no more bytes are available: it never returns.
\<close>

theorem C9_paused_drain_blocks:
  "imd_readcommand example_host
     (connected_session (silent_socket\<lparr>avail := wire_bytes (bare_msg IMD_PAUSE 0)\<rparr>))
   = Inl Blocked"
  by code_simp

text \<open>
  C10. A set-rate message whose value is negative is treated like the value 0: the
  negotiated update interval becomes the configured default. After any processed set-rate
  message the interval is strictly positive provided the default is; the default itself is
  not changed. A fresh session starts with the interval 1.
\<close>

theorem C10_trate_nonpositive:
  assumes "clientsocket s = Some sock"
    and "avail sock = header_bytes hs (fill_header hs IMD_TRATE v) @ rest"
  shows "\<exists>s'. imd_readcommand_body h p s = Inr (p, s')
     \<and> (sint v < 0 \<longrightarrow> nstimd_new s' = nstimd_def s)
     \<and> (sint v = 0 \<longrightarrow> nstimd_new s' = nstimd_def s)
     \<and> (0 < nstimd_def s \<longrightarrow> 0 < nstimd_new s')
     \<and> nstimd_def s' = nstimd_def s
     \<and> nstimd_new (prepareSession imdatoms nstimddef imdport s) = 1
     \<and> nstimd_def (prepareSession imdatoms nstimddef imdport s) = nstimddef"
  by (simp add: body_header [OF assms] imd_readcommand_switch_def prepareSession_def)

text \<open>C10, witness: the value -7 in a session whose default interval is 10.\<close>

theorem C10_trate_nonpositive_witness:
  "\<exists>s'. imd_readcommand_body example_host False
            (connected_session (silent_socket
               \<lparr>avail := header_bytes example_host (fill_header example_host IMD_TRATE (- 7)) @ []\<rparr>))
          = Inr (False, s')
        \<and> nstimd_new s' = 10"
proof -
  let ?sock = "silent_socket
      \<lparr>avail := header_bytes example_host (fill_header example_host IMD_TRATE (- 7)) @ []\<rparr>"
  have 1: "clientsocket (connected_session ?sock) = Some ?sock"
    by (simp add: connected_session_def)
  have 2: "avail ?sock = header_bytes example_host (fill_header example_host IMD_TRATE (- 7)) @ []"
    by simp
  have 3: "nstimd_def (connected_session ?sock) = 10"
    by (simp add: connected_session_def prepareSession_def)
  have 4: "sint (- 7 :: int32_t) < 0"
    by simp
  from C10_trate_nonpositive [OF 1 2, where h = example_host and p = False and imdatoms = 0
      and nstimddef = 0 and imdport = 0] 3 4
  show ?thesis by auto
qed

end
